theory Spec2Isabelle
  imports Complex_Main "HOL-Library.Log_Nat"
begin

section \<open>JavaScript values\<close>

text \<open>
  The component \<^verbatim>\<open>ParkingPopup.tsx\<close> works on loosely typed data: the parking space is
  cast to \<^verbatim>\<open>any\<close>, and the rating response is whatever the server sent. The embedding
  therefore starts with the values of the language.

  A number is a finite value, one of the two infinities, or \<^verbatim>\<open>NaN\<close>. A finite value is
  given by the real number it stands for; the numbers of a program are the binary64
  numbers, which are the reals that the rounding below leaves unchanged. Every arithmetic
  operation rounds its exact result to binary64 (to the nearest number, a tie going to the
  even significand), so on binary64 operands it returns what the language returns. The
  sign of zero is not represented (\<^verbatim>\<open>-0\<close> and \<^verbatim>\<open>0\<close> are equal and both falsy in the source
  language).
\<close>

datatype jsnum = Fin real | PInf | NInf | NaN

datatype json =
    JUndefined
  | JNull
  | JBool bool
  | JNum jsnum
  | JStr string
  | JArr "json list"
  | JObj "(string \<times> json) list"

type_synonym obj = "(string \<times> json) list"

datatype exn = TypeError

subsection \<open>Rounding to binary64\<close>

text \<open>
  Rounding to the nearest integer, a tie going to the even one.
\<close>

definition rne :: "real \<Rightarrow> int" where
  "rne x =
     (if x - of_int \<lfloor>x\<rfloor> < 1 / 2 then \<lfloor>x\<rfloor>
      else if 1 / 2 < x - of_int \<lfloor>x\<rfloor> then \<lfloor>x\<rfloor> + 1
      else if even \<lfloor>x\<rfloor> then \<lfloor>x\<rfloor> else \<lfloor>x\<rfloor> + 1)"

text \<open>
  The binary exponent of a non-negative number \<open>x\<close>: the \<open>e\<close> with \<open>2\<^sup>e \<le> x < 2\<^sup>e\<^sup>+\<^sup>1\<close>, read off
  the bit length of \<open>x\<close> scaled to an integer, and not below the exponent \<open>-1022\<close> of the
  subnormal numbers.
\<close>

definition bexp :: "real \<Rightarrow> int" where
  "bexp x = max (- 1022) (bitlen \<lfloor>x * 2 ^ 1074\<rfloor> - 1075)"

text \<open>
  The binary64 value nearest to a non-negative real: the significand is rounded to 53 bits
  (to a multiple of \<open>2\<^sup>e\<^sup>-\<^sup>5\<^sup>2\<close>), a tie going to the even significand, and a result of \<open>2\<^sup>1\<^sup>0\<^sup>2\<^sup>4\<close> or
  more is infinite. The rounding of a negative number mirrors that of its magnitude.
\<close>

definition rounded :: "real \<Rightarrow> real" where
  "rounded x = of_int (rne (x * 2 powi (52 - bexp x))) * 2 powi (bexp x - 52)"

definition b64p :: "real \<Rightarrow> jsnum" where
  "b64p x = (if 2 ^ 1024 \<le> rounded x then PInf else Fin (rounded x))"

subsection \<open>Arithmetic and comparison on numbers\<close>

fun js_neg :: "jsnum \<Rightarrow> jsnum" where
  "js_neg (Fin a) = Fin (- a)"
| "js_neg PInf = NInf"
| "js_neg NInf = PInf"
| "js_neg NaN = NaN"

definition b64 :: "real \<Rightarrow> jsnum" where
  "b64 x = (if x < 0 then js_neg (b64p (- x)) else b64p x)"

fun js_sgn :: "jsnum \<Rightarrow> real" where
  "js_sgn (Fin a) = sgn a"
| "js_sgn PInf = 1"
| "js_sgn NInf = - 1"
| "js_sgn NaN = 0"

definition inf_signed :: "real \<Rightarrow> jsnum" where
  "inf_signed q = (if 0 < q then PInf else if q < 0 then NInf else NaN)"

fun js_mul :: "jsnum \<Rightarrow> jsnum \<Rightarrow> jsnum" where
  "js_mul (Fin a) (Fin b) = b64 (a * b)"
| "js_mul NaN y = NaN"
| "js_mul x NaN = NaN"
| "js_mul x y = inf_signed (js_sgn x * js_sgn y)"

fun js_add :: "jsnum \<Rightarrow> jsnum \<Rightarrow> jsnum" where
  "js_add (Fin a) (Fin b) = b64 (a + b)"
| "js_add NaN y = NaN"
| "js_add x NaN = NaN"
| "js_add PInf NInf = NaN"
| "js_add NInf PInf = NaN"
| "js_add PInf y = PInf"
| "js_add NInf y = NInf"
| "js_add x PInf = PInf"
| "js_add x NInf = NInf"

definition js_sub :: "jsnum \<Rightarrow> jsnum \<Rightarrow> jsnum" where
  "js_sub x y = js_add x (js_neg y)"

text \<open>Division by a positive finite constant, the only division the component performs.\<close>

fun js_div_pos :: "jsnum \<Rightarrow> real \<Rightarrow> jsnum" where
  "js_div_pos (Fin a) q = b64 (a / q)"
| "js_div_pos x q = x"

fun js_lt :: "jsnum \<Rightarrow> jsnum \<Rightarrow> bool" where
  "js_lt (Fin a) (Fin b) = (a < b)"
| "js_lt NaN y = False"
| "js_lt x NaN = False"
| "js_lt x NInf = False"
| "js_lt PInf y = False"
| "js_lt x y = True"

fun js_le :: "jsnum \<Rightarrow> jsnum \<Rightarrow> bool" where
  "js_le (Fin a) (Fin b) = (a \<le> b)"
| "js_le NaN y = False"
| "js_le x NaN = False"
| "js_le NInf y = True"
| "js_le x PInf = True"
| "js_le x y = False"

text \<open>
  \<^verbatim>\<open>+x.toFixed(2)\<close>. \<^verbatim>\<open>toFixed\<close> takes the integer \<open>n\<close> for which \<open>n / 100\<close> is closest to
  the magnitude of \<open>x\<close>, the larger one on a tie, and keeps the sign; the unary plus reads
  the decimal string back as the nearest binary64 value. From \<open>10\<^sup>2\<^sup>1\<close> on \<^verbatim>\<open>toFixed\<close> prints
  the number itself, which for a binary64 value of that size is an integer, so rounding to
  hundredths gives the same result there. A non-finite number prints as its name and reads
  back as itself.
\<close>

definition toFixed2 :: "real \<Rightarrow> real" where
  "toFixed2 x =
     (if x < 0 then - (of_int \<lfloor>(- x) * 100 + 1 / 2\<rfloor> / 100)
      else of_int \<lfloor>x * 100 + 1 / 2\<rfloor> / 100)"

fun num_toFixed2 :: "jsnum \<Rightarrow> jsnum" where
  "num_toFixed2 (Fin x) = b64 (toFixed2 x)"
| "num_toFixed2 x = x"

subsection \<open>Truthiness, property access, coercion\<close>

fun num_truthy :: "jsnum \<Rightarrow> bool" where
  "num_truthy (Fin a) = (a \<noteq> 0)"
| "num_truthy NaN = False"
| "num_truthy x = True"

fun truthy :: "json \<Rightarrow> bool" where
  "truthy JUndefined = False"
| "truthy JNull = False"
| "truthy (JBool b) = b"
| "truthy (JNum n) = num_truthy n"
| "truthy (JStr s) = (s \<noteq> [])"
| "truthy (JArr xs) = True"
| "truthy (JObj kvs) = True"

fun nullish :: "json \<Rightarrow> bool" where
  "nullish JUndefined = True"
| "nullish JNull = True"
| "nullish v = False"

text \<open>\<^verbatim>\<open>a ?? b\<close> and \<^verbatim>\<open>a || b\<close>.\<close>

definition coalesce :: "json \<Rightarrow> json \<Rightarrow> json" where
  "coalesce a b = (if nullish a then b else a)"

definition js_or :: "json \<Rightarrow> json \<Rightarrow> json" where
  "js_or a b = (if truthy a then a else b)"

text \<open>
  Reading a property of an object. A property list stands for the object's own properties,
  the first binding of a name being the one read.
\<close>

definition field :: "obj \<Rightarrow> string \<Rightarrow> json" where
  "field kvs k = (case map_of kvs k of None \<Rightarrow> JUndefined | Some v \<Rightarrow> v)"

text \<open>
  \<^verbatim>\<open>v?.k\<close>, and \<^verbatim>\<open>v.k\<close> where \<open>v\<close> is known not to be null or undefined. None of the property
  names the component reads (\<^verbatim>\<open>ratings\<close>, \<^verbatim>\<open>stats\<close>, \<^verbatim>\<open>avg\<close>, \<^verbatim>\<open>count\<close>, \<^verbatim>\<open>score\<close>, \<^verbatim>\<open>url\<close>, ...)
  exists on a string, number, boolean or array, so reading them there gives undefined.
\<close>

fun member :: "json \<Rightarrow> string \<Rightarrow> json" where
  "member (JObj kvs) k = field kvs k"
| "member v k = JUndefined"

text \<open>\<^verbatim>\<open>v.k\<close> on an arbitrary value: reading a property of null or undefined throws.\<close>

definition member_strict :: "json \<Rightarrow> string \<Rightarrow> exn + json" where
  "member_strict v k = (if nullish v then Inl TypeError else Inr (member v k))"

text \<open>
  The conversion of an object to a primitive value calls its \<^verbatim>\<open>valueOf\<close> and \<^verbatim>\<open>toString\<close>
  methods. An object that came from JSON inherits both; the inherited \<^verbatim>\<open>valueOf\<close> returns
  the object itself, so the result is that of \<^verbatim>\<open>toString\<close>. A property \<^verbatim>\<open>toString\<close> of the
  object's own hides the inherited method and is not callable, and the conversion throws a
  \<^verbatim>\<open>TypeError\<close>. An array is converted by joining the strings of its entries (null and
  undefined entries give the empty string), so it throws when the conversion of an entry
  does. \<^verbatim>\<open>Number(v)\<close>, \<^verbatim>\<open>String(v)\<close>, a template literal and \<^verbatim>\<open>new Date(v)\<close> all start with this
  conversion.
\<close>

fun unconvertible :: "json \<Rightarrow> bool" where
  "unconvertible (JObj kvs) = (map_of kvs ''toString'' \<noteq> None)"
| "unconvertible (JArr xs) = list_ex unconvertible xs"
| "unconvertible v = False"

text \<open>
  What the component takes from its runtime, for the values whose conversion returns: the
  conversion of a string to a number (\<^verbatim>\<open>Number(s)\<close>), the conversion of a value that is not a
  string to a string (\<^verbatim>\<open>String(v)\<close>, template literals), and \<^verbatim>\<open>new Date(v).getTime()\<close> in
  milliseconds, \<open>None\<close> standing for the \<^verbatim>\<open>NaN\<close> of an invalid date. They are parameters of
  the embedding.
\<close>

record runtime =
  StringToNumber :: "string \<Rightarrow> jsnum"
  ToStringOther :: "json \<Rightarrow> string"
  DateTime :: "json \<Rightarrow> int option"

text \<open>The value of \<^verbatim>\<open>String(v)\<close> when the conversion returns.\<close>

definition js_string :: "runtime \<Rightarrow> json \<Rightarrow> string" where
  "js_string rt v = (case v of JStr s \<Rightarrow> s | _ \<Rightarrow> ToStringOther rt v)"

text \<open>
  The value of \<^verbatim>\<open>Number(v)\<close> when the conversion returns: arrays and objects are converted
  through their string.
\<close>

fun ToNumber :: "runtime \<Rightarrow> json \<Rightarrow> jsnum" where
  "ToNumber rt JUndefined = NaN"
| "ToNumber rt JNull = Fin 0"
| "ToNumber rt (JBool b) = Fin (if b then 1 else 0)"
| "ToNumber rt (JNum n) = n"
| "ToNumber rt (JStr s) = StringToNumber rt s"
| "ToNumber rt (JArr xs) = StringToNumber rt (ToStringOther rt (JArr xs))"
| "ToNumber rt (JObj kvs) = StringToNumber rt (ToStringOther rt (JObj kvs))"

text \<open>
  \<^verbatim>\<open>Number(v)\<close> and \<^verbatim>\<open>new Date(v).getTime()\<close> with their exception, as they are needed inside
  the \<^verbatim>\<open>try\<close> block of the rating request, where the exception is caught.
\<close>

definition Number_of :: "runtime \<Rightarrow> json \<Rightarrow> exn + jsnum" where
  "Number_of rt v = (if unconvertible v then Inl TypeError else Inr (ToNumber rt v))"

definition Date_getTime :: "runtime \<Rightarrow> json \<Rightarrow> exn + int option" where
  "Date_getTime rt v = (if unconvertible v then Inl TypeError else Inr (DateTime rt v))"

text \<open>\<^verbatim>\<open>n || 0\<close> on a number.\<close>

definition num_or_zero :: "jsnum \<Rightarrow> jsnum" where
  "num_or_zero n = (if num_truthy n then n else Fin 0)"

section \<open>PriceCalculator\<close>

text \<open>
  \<^verbatim>\<open>computeDiscountedPrice\<close> (lines 196-215). Its local constants \<^verbatim>\<open>base\<close>, \<^verbatim>\<open>rawDiscount\<close>,
  \<^verbatim>\<open>discountNum\<close> and \<^verbatim>\<open>clamped\<close> are definitions of their own, so that statements can
  speak about them.

  The function is called in the body of the render, as are the other computations of lines
  225-262 and the initial state of line 63. A render in which one of them throws shows no
  popup and creates no handler. The definitions of the render give the values of a render
  that completes; \<open>computeDiscountedPrice_throws\<close> says when the call of line 227 does not
  return, which is when \<^verbatim>\<open>Number\<close> is applied to a value that has no primitive (line 197, and
  line 205 for a discount object).
\<close>

definition computeDiscountedPrice_throws :: "obj \<Rightarrow> bool" where
  "computeDiscountedPrice_throws s =
     (unconvertible
        (coalesce (field s ''priceParking'')
          (coalesce (field s ''pricePerHour'')
            (coalesce (field s ''price'') (JNum (Fin 0))))) \<or>
      (case coalesce (field s ''discount'') (coalesce (field s ''discountPercent'') (JNum (Fin 0))) of
         JObj kvs \<Rightarrow>
           unconvertible (coalesce (field kvs ''percent'')
             (coalesce (field kvs ''value'') (coalesce (field kvs ''amount'') (JNum (Fin 0)))))
       | _ \<Rightarrow> False))"

definition base :: "runtime \<Rightarrow> obj \<Rightarrow> jsnum" where
  "base rt s =
     num_or_zero (ToNumber rt
       (coalesce (field s ''priceParking'')
         (coalesce (field s ''pricePerHour'')
           (coalesce (field s ''price'') (JNum (Fin 0))))))"

definition rawDiscount :: "obj \<Rightarrow> json" where
  "rawDiscount s =
     coalesce (field s ''discount'') (coalesce (field s ''discountPercent'') (JNum (Fin 0)))"

text \<open>\<^verbatim>\<open>replace('%', '')\<close> with a string pattern removes the first occurrence only.\<close>

definition discountNum :: "runtime \<Rightarrow> obj \<Rightarrow> jsnum" where
  "discountNum rt s =
     (case rawDiscount s of
        JStr str \<Rightarrow> StringToNumber rt (remove1 CHR ''%'' str)
      | JNum n \<Rightarrow> n
      | JObj kvs \<Rightarrow>
          ToNumber rt (coalesce (field kvs ''percent'')
            (coalesce (field kvs ''value'') (coalesce (field kvs ''amount'') (JNum (Fin 0)))))
      | JArr xs \<Rightarrow> ToNumber rt (JNum (Fin 0))
      | _ \<Rightarrow> Fin 0)"

definition clamped :: "runtime \<Rightarrow> obj \<Rightarrow> real" where
  "clamped rt s = (case discountNum rt s of Fin d \<Rightarrow> max 0 (min 100 d) | _ \<Rightarrow> 0)"

record PriceBreakdown =
  basePrice :: jsnum
  discountPercent :: real
  discountedPrice :: jsnum
  hasDiscount :: bool

definition computeDiscountedPrice :: "runtime \<Rightarrow> obj \<Rightarrow> PriceBreakdown" where
  "computeDiscountedPrice rt s =
     (let discounted =
            num_toFixed2
              (js_mul (base rt s) (js_sub (Fin 1) (js_div_pos (Fin (clamped rt s)) 100)))
      in \<lparr> basePrice = num_toFixed2 (base rt s),
           discountPercent = clamped rt s,
           discountedPrice = discounted,
           hasDiscount = (0 < clamped rt s \<and> js_lt discounted (base rt s)) \<rparr>)"

text \<open>
  \<^verbatim>\<open>computeDurationHours\<close> (lines 217-224). The arguments are \<^verbatim>\<open>string | null | undefined\<close>;
  \<open>None\<close> stands for both null and undefined, which the function and the handoff
  (\<^verbatim>\<open>startTime ?? null\<close>) do not tell apart. Times are the integral milliseconds of
  \<^verbatim>\<open>getTime()\<close>, of magnitude at most \<open>8.64 \<times> 10\<^sup>1\<^sup>5\<close> and so binary64 numbers. Their difference,
  the minutes and the hours are each rounded; all three are positive and far from the
  largest binary64 number.
\<close>

definition computeDurationHours :: "runtime \<Rightarrow> string option \<Rightarrow> string option \<Rightarrow> real option" where
  "computeDurationHours rt start end' =
     (case (start, end') of
        (Some s, Some e) \<Rightarrow>
          if s = [] \<or> e = [] then None
          else (case (DateTime rt (JStr s), DateTime rt (JStr e)) of
                  (Some ts, Some te) \<Rightarrow>
                    if te \<le> ts then None
                    else Some (rounded (rounded (rounded (real_of_int (te - ts)) / (1000 * 60)) / 60))
                | _ \<Rightarrow> None)
      | _ \<Rightarrow> None)"

text \<open>
  The render body, lines 227-233. \<^verbatim>\<open>priceMeta\<close> is the space's \<^verbatim>\<open>__price\<close> when that is neither
  null nor undefined, and the computed breakdown otherwise; it is an object either way, so
  the breakdown is given as the object literal \<^verbatim>\<open>computeDiscountedPrice\<close> returns.
\<close>

definition breakdown_obj :: "PriceBreakdown \<Rightarrow> json" where
  "breakdown_obj p =
     JObj [(''basePrice'', JNum (basePrice p)),
           (''discountPercent'', JNum (Fin (discountPercent p))),
           (''discountedPrice'', JNum (discountedPrice p)),
           (''hasDiscount'', JBool (hasDiscount p))]"

definition priceMeta :: "runtime \<Rightarrow> obj \<Rightarrow> json" where
  "priceMeta rt space =
     (if nullish (field space ''__price'') then breakdown_obj (computeDiscountedPrice rt space)
      else field space ''__price'')"

definition perHour_of :: "runtime \<Rightarrow> obj \<Rightarrow> json" where
  "perHour_of rt space =
     (if truthy (member (priceMeta rt space) ''hasDiscount'')
      then member (priceMeta rt space) ''discountedPrice''
      else member (priceMeta rt space) ''basePrice'')"

text \<open>\<^verbatim>\<open>durationHours ? +(perHour * durationHours).toFixed(2) : null\<close>.\<close>

definition totalAmount_of :: "runtime \<Rightarrow> obj \<Rightarrow> real option \<Rightarrow> json" where
  "totalAmount_of rt space dh =
     (case dh of
        None \<Rightarrow> JNull
      | Some d \<Rightarrow>
          if d = 0 then JNull
          else JNum (num_toFixed2 (js_mul (ToNumber rt (perHour_of rt space)) (Fin d))))"

section \<open>ImageResolver\<close>

text \<open>
  \<^verbatim>\<open>API_BASE\<close> and \<^verbatim>\<open>CLOUD_NAME\<close> (lines 89-90) are read from the build environment; the
  embedding takes their values as given.
\<close>

record config =
  API_BASE :: string
  CLOUD_NAME :: string

definition starts_with :: "string \<Rightarrow> string \<Rightarrow> bool" where
  "starts_with s p = (take (length p) s = p)"

text \<open>
  The template literal of line 249 converts the file name to a string, which throws for a
  file name that has no primitive.
\<close>

definition uploads_url :: "runtime \<Rightarrow> config \<Rightarrow> json \<Rightarrow> exn + json" where
  "uploads_url rt cfg f =
     (if unconvertible f then Inl TypeError
      else Inr (JStr (API_BASE cfg @ ''/uploads/'' @ js_string rt f)))"

text \<open>
  The object branch of \<^verbatim>\<open>makeUrl\<close> (lines 245-250). A \<^verbatim>\<open>path\<close> that is truthy and not a string
  has no \<^verbatim>\<open>startsWith\<close>, so the call throws.
\<close>

definition makeUrl_object :: "runtime \<Rightarrow> config \<Rightarrow> json \<Rightarrow> exn + json" where
  "makeUrl_object rt cfg p =
     (if truthy (member p ''url'') then Inr (member p ''url'')
      else if truthy (member p ''path'') then
        (case member p ''path'' of
           JStr q \<Rightarrow>
             if starts_with q ''http://'' \<or> starts_with q ''https://'' then Inr (JStr q)
             else if starts_with q ''/'' then Inr (JStr (API_BASE cfg @ q))
             else if truthy (member p ''filename'') then uploads_url rt cfg (member p ''filename'')
             else Inr JNull
         | _ \<Rightarrow> Inl TypeError)
      else if truthy (member p ''filename'') then uploads_url rt cfg (member p ''filename'')
      else Inr JNull)"

definition makeUrl :: "runtime \<Rightarrow> config \<Rightarrow> json \<Rightarrow> exn + json" where
  "makeUrl rt cfg p =
     (if \<not> truthy p then Inr JNull
      else case p of
        JStr s \<Rightarrow>
          if starts_with s ''http://'' \<or> starts_with s ''https://'' then Inr (JStr s)
          else if starts_with s ''/'' then Inr (JStr (API_BASE cfg @ s))
          else if CLOUD_NAME cfg \<noteq> [] \<and> CHR ''/'' \<in> set s
            then Inr (JStr (''https://res.cloudinary.com/'' @ CLOUD_NAME cfg @ ''/image/upload/'' @ s))
          else Inr (JStr (API_BASE cfg @ ''/uploads/'' @ s))
      | JObj kvs \<Rightarrow> makeUrl_object rt cfg p
      | JArr xs \<Rightarrow> makeUrl_object rt cfg p
      | _ \<Rightarrow> Inr JNull)"

text \<open>\<^verbatim>\<open>xs.map(f)\<close> for an \<open>f\<close> that may throw: the first exception ends the loop.\<close>

fun map_throwing :: "('a \<Rightarrow> exn + 'b) \<Rightarrow> 'a list \<Rightarrow> exn + 'b list" where
  "map_throwing f [] = Inr []"
| "map_throwing f (x # xs) =
     (case f x of
        Inl e \<Rightarrow> Inl e
      | Inr y \<Rightarrow> (case map_throwing f xs of Inl e \<Rightarrow> Inl e | Inr ys \<Rightarrow> Inr (y # ys)))"

definition placeholder :: string where
  "placeholder =
     ''https://images.unsplash.com/photo-1560518883-ce09059eeffa?ixlib=rb-4.0.3&auto=format&fit=crop&w=400&q=80''"

text \<open>\<^verbatim>\<open>images\<close> (lines 254-262); \<^verbatim>\<open>filter(Boolean)\<close> keeps the truthy entries.\<close>

definition images :: "runtime \<Rightarrow> config \<Rightarrow> obj \<Rightarrow> exn + json list" where
  "images rt cfg space =
     (let rawPhotos = field space ''photos'' in
      case rawPhotos of
        JArr xs \<Rightarrow>
          if 0 < length xs then
            (case map_throwing (makeUrl rt cfg) xs of
               Inl e \<Rightarrow> Inl e
             | Inr urls \<Rightarrow> Inr (filter truthy urls))
          else (case makeUrl rt cfg rawPhotos of
                  Inl e \<Rightarrow> Inl e
                | Inr u \<Rightarrow> Inr (filter truthy [u]))
      | _ \<Rightarrow>
          if truthy rawPhotos then
            (case makeUrl rt cfg rawPhotos of
               Inl e \<Rightarrow> Inl e
             | Inr u \<Rightarrow> Inr (filter truthy [u]))
          else Inr [JStr placeholder])"

section \<open>BookingEligibilityGate\<close>

text \<open>
  The \<^verbatim>\<open>user\<close> prop has the type
  \<^verbatim>\<open>{ id?: string; _id?: string; name?: string; isVerified?: boolean } | null\<close>; the field
  \<open>user_oid\<close> is \<^verbatim>\<open>_id\<close> and \<open>user_id\<close> is \<^verbatim>\<open>id\<close>. The record may carry further fields, as a
  value passed for the prop may. The user of the authentication context is untyped.
\<close>

record user =
  user_id :: "string option"
  user_oid :: "string option"
  user_name :: "string option"
  isVerified :: "bool option"

record nav_state =
  spaceId :: json
  userId :: "string option"
  startTime :: "string option"
  endTime :: "string option"
  totalAmount :: json
  perHour :: json
  durationHours :: "real option"

datatype effect =
    StopPropagation
  | ToastInfo string
  | Navigate string "nav_state option"
  | SetShowPhoneModal bool
  | OnClose

text \<open>
  The event handed to \<^verbatim>\<open>handleBookNow\<close>: a click, or the stub
  \<^verbatim>\<open>{ stopPropagation: () => {} }\<close> that the phone dialog's \<^verbatim>\<open>onSuccess\<close> passes.
\<close>

datatype click = MouseEvent | StubEvent

definition stopPropagation :: "click \<Rightarrow> effect list" where
  "stopPropagation e = (case e of MouseEvent \<Rightarrow> [StopPropagation] | StubEvent \<Rightarrow> [])"

text \<open>
  \<^verbatim>\<open>space._id?.toString() || space._id\<close> and \<^verbatim>\<open>user._id || user.id\<close>. A truthy identifier is
  one that the fetch effect of the same render has converted with \<^verbatim>\<open>String\<close> (line 111)
  before any click is handled, and a falsy one is not an object, so the conversion returns.
\<close>

definition sid :: "runtime \<Rightarrow> obj \<Rightarrow> json" where
  "sid rt space =
     (let i = field space ''_id'' in
      if nullish i then i else js_or (JStr (js_string rt i)) i)"

definition uid :: "'a user_scheme \<Rightarrow> string option" where
  "uid u = (case user_oid u of Some s \<Rightarrow> if s \<noteq> [] then Some s else user_id u | None \<Rightarrow> user_id u)"

definition handoff :: "runtime \<Rightarrow> obj \<Rightarrow> 'a user_scheme \<Rightarrow> string option \<Rightarrow> string option \<Rightarrow> nav_state" where
  "handoff rt space u start end' =
     \<lparr> spaceId = sid rt space,
       userId = uid u,
       startTime = start,
       endTime = end',
       totalAmount = totalAmount_of rt space (computeDurationHours rt start end'),
       perHour = perHour_of rt space,
       durationHours = computeDurationHours rt start end' \<rparr>"

text \<open>
  \<^verbatim>\<open>handleBookNow\<close> (lines 275-309), as the list of effects it performs, in order. It closes
  over the props and the context value of the render that created it.
\<close>

definition handleBookNow ::
  "runtime \<Rightarrow> obj \<Rightarrow> 'a user_scheme option \<Rightarrow> json \<Rightarrow> string option \<Rightarrow> string option \<Rightarrow> click
     \<Rightarrow> effect list" where
  "handleBookNow rt space usr authUser start end' e =
     stopPropagation e @
     (case usr of
        None \<Rightarrow> [ToastInfo ''Please log in to book the parking space.'', Navigate ''/login'' None]
      | Some u \<Rightarrow>
          if isVerified u \<noteq> Some True
          then [ToastInfo ''Your account is not verified. Please complete your KYC to book.'']
          else if member authUser ''phoneVerified'' = JBool False
          then [SetShowPhoneModal True]
          else [Navigate ''/vehicle-details'' (Some (handoff rt space u start end')), OnClose])"


definition onClose_modal :: "effect list" where
  "onClose_modal = [SetShowPhoneModal False]"

section \<open>RatingAggregator\<close>

subsection \<open>Normalising a response\<close>

text \<open>
  The body of \<^verbatim>\<open>fetchRatings\<close> after the response has arrived (lines 125-171).
  \<open>rev_id\<close> is the review's \<^verbatim>\<open>_id\<close>; an author is the \<^verbatim>\<open>fromUser\<close> of a normalised review:
  the string as it came, an object \<^verbatim>\<open>{name, _id}\<close>, or null.
\<close>

datatype author = AuthorId string | AuthorObj json json | AuthorNull

record review =
  rev_id :: json
  score :: jsnum
  comment :: json
  fromUser :: author
  createdAt :: json

record ratings_view =
  ratingAvg :: jsnum
  ratingCount :: jsnum
  reviews :: "review list"

definition ratingsArray :: "json \<Rightarrow> json list" where
  "ratingsArray data =
     (case data of
        JArr xs \<Rightarrow> xs
      | _ \<Rightarrow> (case member data ''ratings'' of JArr ys \<Rightarrow> ys | _ \<Rightarrow> []))"

definition is_number :: "json \<Rightarrow> bool" where
  "is_number v = (case v of JNum n \<Rightarrow> True | _ \<Rightarrow> False)"

text \<open>The guard of line 134.\<close>

definition stats_used :: "json \<Rightarrow> bool" where
  "stats_used data =
     (truthy (member data ''stats'') \<and>
      (is_number (member (member data ''stats'') ''avg'') \<or>
       is_number (member (member data ''stats'') ''count'')))"

text \<open>
  \<^verbatim>\<open>Number(space?.rating ?? 0)\<close>, the cached rating of the space. The space of a request's
  closure is the space of a render that completed, and that render evaluated the same
  expression at line 63, so the conversion returns wherever the handlers repeat it.
\<close>

definition cached_rating :: "runtime \<Rightarrow> obj \<Rightarrow> jsnum" where
  "cached_rating rt space = ToNumber rt (coalesce (field space ''rating'') (JNum (Fin 0)))"

definition fallback :: "runtime \<Rightarrow> obj \<Rightarrow> ratings_view" where
  "fallback rt space = \<lparr> ratingAvg = cached_rating rt space, ratingCount = Fin 0, reviews = [] \<rparr>"

text \<open>
  \<^verbatim>\<open>ratingsArray.reduce((s, r) => s + (Number(r.score) || 0), 0)\<close>: reading \<^verbatim>\<open>r.score\<close> throws
  when the entry \<open>r\<close> is null or undefined, and \<^verbatim>\<open>Number\<close> throws on a score that has no
  primitive.
\<close>

fun score_sum :: "runtime \<Rightarrow> jsnum \<Rightarrow> json list \<Rightarrow> exn + jsnum" where
  "score_sum rt acc [] = Inr acc"
| "score_sum rt acc (r # rs) =
     (case member_strict r ''score'' of
        Inl e \<Rightarrow> Inl e
      | Inr v \<Rightarrow>
          (case Number_of rt v of
             Inl e \<Rightarrow> Inl e
           | Inr n \<Rightarrow> score_sum rt (js_add acc (num_or_zero n)) rs))"

text \<open>Lines 134-144: the pair (average, count) that is stored.\<close>

definition summarize :: "runtime \<Rightarrow> obj \<Rightarrow> json \<Rightarrow> exn + jsnum \<times> jsnum" where
  "summarize rt space data =
     (if stats_used data then
        (case Number_of rt (coalesce (member (member data ''stats'') ''avg'') (JNum (Fin 0))) of
           Inl e \<Rightarrow> Inl e
         | Inr a \<Rightarrow>
             (case Number_of rt (coalesce (member (member data ''stats'') ''count'') (JNum (Fin 0))) of
                Inl e \<Rightarrow> Inl e
              | Inr c \<Rightarrow> Inr (a, c)))
      else if 0 < length (ratingsArray data) then
        (case score_sum rt (Fin 0) (ratingsArray data) of
           Inl e \<Rightarrow> Inl e
         | Inr sm \<Rightarrow>
             Inr (js_div_pos sm (real (max 1 (length (ratingsArray data)))),
                  Fin (real (length (ratingsArray data)))))
      else Inr (cached_rating rt space, Fin 0))"

text \<open>
  The mapping of one raw record (lines 148-159); \<^verbatim>\<open>r._id\<close> throws on a null entry, and
  \<^verbatim>\<open>Number(r.score || 0)\<close> on a score that has no primitive.
\<close>

definition author_of :: "json \<Rightarrow> author" where
  "author_of f =
     (case f of
        JStr s \<Rightarrow> AuthorId s
      | JObj kvs \<Rightarrow>
          AuthorObj (js_or (field kvs ''name'') (js_or (field kvs ''fullName'')
                      (js_or (field kvs ''email'') (JStr ''Anonymous''))))
                    (field kvs ''_id'')
      | JArr xs \<Rightarrow> AuthorObj (JStr ''Anonymous'') JUndefined
      | _ \<Rightarrow> AuthorNull)"

definition normalize_review :: "runtime \<Rightarrow> json \<Rightarrow> exn + review" where
  "normalize_review rt r =
     (if nullish r then Inl TypeError
      else
        (case Number_of rt (js_or (member r ''score'') (JNum (Fin 0))) of
           Inl e \<Rightarrow> Inl e
         | Inr n \<Rightarrow>
             Inr \<lparr> rev_id = member r ''_id'',
                   score = n,
                   comment = js_or (member r ''comment'') (JStr []),
                   fromUser = author_of (member r ''fromUser''),
                   createdAt = member r ''createdAt'' \<rparr>))"

text \<open>
  The comparator of lines 160-164. \<^verbatim>\<open>new Date(v)\<close> throws on a truthy \<^verbatim>\<open>createdAt\<close> that has
  no primitive; a date that does not parse has the time \<^verbatim>\<open>NaN\<close>.
\<close>

definition review_time :: "runtime \<Rightarrow> review \<Rightarrow> exn + jsnum" where
  "review_time rt a =
     (if truthy (createdAt a) then
        (case Date_getTime rt (createdAt a) of
           Inl e \<Rightarrow> Inl e
         | Inr None \<Rightarrow> Inr NaN
         | Inr (Some ms) \<Rightarrow> Inr (Fin (real_of_int ms)))
      else Inr (Fin 0))"

definition newer_first :: "runtime \<Rightarrow> review \<Rightarrow> review \<Rightarrow> exn + jsnum" where
  "newer_first rt a b =
     (case review_time rt a of
        Inl e \<Rightarrow> Inl e
      | Inr ta \<Rightarrow>
          (case review_time rt b of
             Inl e \<Rightarrow> Inl e
           | Inr tb \<Rightarrow> Inr (js_sub tb ta)))"

text \<open>
  \<^verbatim>\<open>Array.prototype.sort\<close>, which is stable: an element moves behind another only when the
  comparator is positive, a \<^verbatim>\<open>NaN\<close> result counting as zero, and an exception of the
  comparator ends the sort. An array of one element is returned without a call of the
  comparator; in a longer array every element is compared at least once. Where the
  comparator is not a consistent order (dates that do not parse) the language leaves the
  order to the implementation; the insertion sort is one.
\<close>

fun insert_by :: "('a \<Rightarrow> 'a \<Rightarrow> exn + jsnum) \<Rightarrow> 'a \<Rightarrow> 'a list \<Rightarrow> exn + 'a list" where
  "insert_by cmp x [] = Inr [x]"
| "insert_by cmp x (y # ys) =
     (case cmp x y of
        Inl e \<Rightarrow> Inl e
      | Inr c \<Rightarrow>
          if js_lt (Fin 0) c then
            (case insert_by cmp x ys of Inl e \<Rightarrow> Inl e | Inr zs \<Rightarrow> Inr (y # zs))
          else Inr (x # y # ys))"

fun sort_by :: "('a \<Rightarrow> 'a \<Rightarrow> exn + jsnum) \<Rightarrow> 'a list \<Rightarrow> exn + 'a list" where
  "sort_by cmp [] = Inr []"
| "sort_by cmp (x # xs) =
     (case sort_by cmp xs of Inl e \<Rightarrow> Inl e | Inr ys \<Rightarrow> insert_by cmp x ys)"

text \<open>
  The \<^verbatim>\<open>try\<close> block from line 125 on, for a request that has not been aborted. The test of
  line 166 compares \<^verbatim>\<open>spaceId\<close> with \<^verbatim>\<open>String(space._id)\<close> of the same closure and reads the
  abort flag in the same synchronous run, so it holds whenever it is reached.
\<close>

definition try_body :: "runtime \<Rightarrow> obj \<Rightarrow> json \<Rightarrow> exn + ratings_view" where
  "try_body rt space data =
     (case summarize rt space data of
        Inl e \<Rightarrow> Inl e
      | Inr (avg, cnt) \<Rightarrow>
          if 0 < length (ratingsArray data) then
            (case map_throwing (normalize_review rt) (ratingsArray data) of
               Inl e \<Rightarrow> Inl e
             | Inr normalized \<Rightarrow>
                 (case sort_by (newer_first rt) normalized of
                    Inl e \<Rightarrow> Inl e
                  | Inr ordered \<Rightarrow> Inr \<lparr> ratingAvg = avg, ratingCount = cnt, reviews = ordered \<rparr>))
          else Inr \<lparr> ratingAvg = avg, ratingCount = cnt, reviews = [] \<rparr>)"

text \<open>
  The state after the handler has run on a response: what the \<^verbatim>\<open>try\<close> block stored, or, when
  it threw, what the \<^verbatim>\<open>catch\<close> block stores (lines 172-178), which overwrites all three
  fields.
\<close>

definition on_response :: "runtime \<Rightarrow> obj \<Rightarrow> json \<Rightarrow> ratings_view" where
  "on_response rt space data =
     (case try_body rt space data of Inr v \<Rightarrow> v | Inl e \<Rightarrow> fallback rt space)"

subsection \<open>The fetch lifecycle\<close>

text \<open>
  Each run of the fetch effect (lines 102-187) that finds an identifier creates an
  \<^verbatim>\<open>AbortController\<close> and issues one request; the request's handler closes over the space
  of that render. The component's state is the visible rating data, the requests issued so
  far, the controller whose abort is the cleanup of the latest effect run, and the value of
  the dependency \<^verbatim>\<open>space?._id\<close> at that run.

  The two effects run again when the dependency is not the same value as at their last
  run. For an identifier that is a string, a number, a boolean, null or undefined this is
  the comparison of the values (the two zeros, which the embedding does not tell apart,
  are both falsy: the effects then store the fallback again and issue no request). An
  identifier that is an object or an array is the same value only if it is the same
  object, which the JSON value does not tell: the flag \<open>fresh_dep\<close> records that the
  identifier of the latest render is a new object.
\<close>

record request =
  req_space :: obj
  aborted :: bool
  settled :: bool

record popup =
  cur_space :: obj
  fresh_dep :: bool
  deps :: "json option"
  shown :: ratings_view
  requests :: "request list"
  controller :: "nat option"
  unmounted :: bool

text \<open>
  A render with a \<^verbatim>\<open>space\<close> prop whose identifier, if it is an object, is the object of the
  previous render; a render with a \<^verbatim>\<open>space\<close> prop whose identifier, if it is an object, is a
  new one; the run of the pending effects; the arrival of a response for a request; the
  failure of a request; and the teardown of the component. A render is one that completes.
\<close>

datatype event = Render obj | RenderFresh obj | Flush | Resolve nat json | Reject nat | Unmount

definition is_reference :: "json \<Rightarrow> bool" where
  "is_reference v = (case v of JObj kvs \<Rightarrow> True | JArr xs \<Rightarrow> True | _ \<Rightarrow> False)"

definition mount :: "runtime \<Rightarrow> obj \<Rightarrow> popup" where
  "mount rt space =
     \<lparr> cur_space = space, fresh_dep = False, deps = None, shown = fallback rt space,
       requests = [], controller = None, unmounted = False \<rparr>"

definition abort :: "popup \<Rightarrow> popup" where
  "abort s =
     (case controller s of
        None \<Rightarrow> s
      | Some k \<Rightarrow> s\<lparr> requests := (requests s)[k := (requests s ! k)\<lparr> aborted := True \<rparr>] \<rparr>)"

text \<open>
  The effects of lines 93-99 and 102-187 when the dependency has changed: the cleanup of the
  previous run, the reset, then the fetch effect. \<^verbatim>\<open>String(space._id)\<close> (line 111) throws on
  an identifier that has no primitive, before a request is issued and before the effect has
  returned a cleanup; an exception in an effect takes the component off the screen.
\<close>

definition run_effects :: "runtime \<Rightarrow> popup \<Rightarrow> popup" where
  "run_effects rt s =
     (let s1 = (abort s)\<lparr> shown := fallback rt (cur_space s),
                          fresh_dep := False,
                          deps := Some (field (cur_space s) ''_id'') \<rparr>
      in if \<not> truthy (field (cur_space s) ''_id'') then s1\<lparr> controller := None \<rparr>
         else if unconvertible (field (cur_space s) ''_id'')
           then s1\<lparr> controller := None, unmounted := True \<rparr>
         else s1\<lparr> requests := requests s1 @
                               [\<lparr> req_space = cur_space s, aborted = False, settled = False \<rparr>],
                  controller := Some (length (requests s1)) \<rparr>)"

definition flush :: "runtime \<Rightarrow> popup \<Rightarrow> popup" where
  "flush rt s =
     (if unmounted s \<or> (\<not> fresh_dep s \<and> deps s = Some (field (cur_space s) ''_id'')) then s
      else run_effects rt s)"

text \<open>
  The continuation of a request: both the \<^verbatim>\<open>try\<close> path (line 123) and the \<^verbatim>\<open>catch\<close> path
  (line 173) return at once when the controller has been aborted.
\<close>

definition settle :: "popup \<Rightarrow> nat \<Rightarrow> (obj \<Rightarrow> ratings_view) \<Rightarrow> popup" where
  "settle s k handler =
     (if k < length (requests s) \<and> \<not> settled (requests s ! k) then
        (let r = requests s ! k;
             s1 = s\<lparr> requests := (requests s)[k := r\<lparr> settled := True \<rparr>] \<rparr>
         in if aborted r then s1 else s1\<lparr> shown := handler (req_space r) \<rparr>)
      else s)"

fun step :: "runtime \<Rightarrow> popup \<Rightarrow> event \<Rightarrow> popup" where
  "step rt s (Render space) =
     (if unmounted s then s else (flush rt s)\<lparr> cur_space := space, fresh_dep := False \<rparr>)"
| "step rt s (RenderFresh space) =
     (if unmounted s then s
      else (flush rt s)\<lparr> cur_space := space, fresh_dep := is_reference (field space ''_id'') \<rparr>)"
| "step rt s Flush = flush rt s"
| "step rt s (Resolve k data) = settle s k (\<lambda>space. on_response rt space data)"
| "step rt s (Reject k) = settle s k (fallback rt)"
| "step rt s Unmount =
     (if unmounted s then s
      else (abort (flush rt s))\<lparr> controller := None, unmounted := True \<rparr>)"

definition run :: "runtime \<Rightarrow> popup \<Rightarrow> event list \<Rightarrow> popup" where
  "run rt s es = foldl (step rt) s es"

section \<open>A runtime for the worked examples\<close>

text \<open>
  The concrete inputs below are evaluated in a runtime that converts the strings \<^verbatim>\<open>10\<close>,
  \<^verbatim>\<open>4.5\<close> and \<^verbatim>\<open>12\<close> to their numbers, the empty string to zero and every other string to
  \<^verbatim>\<open>NaN\<close> (the other strings of the examples are not numerals), prints an object as
  \<^verbatim>\<open>[object Object]\<close>, and knows the two timestamps of the duration example (no other string
  of the examples is a date).
\<close>

definition sample_runtime :: runtime where
  "sample_runtime =
     \<lparr> StringToNumber = (\<lambda>s. if s = ''10'' then Fin 10 else if s = ''4.5'' then Fin (9 / 2)
                             else if s = ''12'' then Fin 12 else if s = [] then Fin 0 else NaN),
       ToStringOther = (\<lambda>v. ''[object Object]''),
       DateTime = (\<lambda>v. if v = JStr ''2024-01-01T10:00:00Z'' then Some 1704103200000
                       else if v = JStr ''2024-01-01T12:30:00Z'' then Some 1704112200000
                       else None) \<rparr>"

text \<open>
  A number as it is written in a JSON text or in a program: the binary64 number nearest to
  the decimal.
\<close>

definition lit :: "real \<Rightarrow> json" where
  "lit x = JNum (b64 x)"

definition sample_config :: config where
  "sample_config = \<lparr> API_BASE = ''https://x.test'', CLOUD_NAME = [] \<rparr>"

text \<open>
  A value passed for the \<^verbatim>\<open>user\<close> prop that also carries a \<^verbatim>\<open>phoneVerified\<close> field, as the
  record of the authentication context does.
\<close>

record user_pv = user +
  phoneVerified :: json

definition space_A :: obj where
  "space_A = [(''_id'', JStr ''A''), (''price'', JNum (Fin 100)), (''rating'', JNum (Fin 3))]"

definition space_B :: obj where
  "space_B = [(''_id'', JStr ''B''), (''price'', JNum (Fin 60)), (''rating'', JNum (Fin 4))]"

text \<open>A space whose identifier is an object, as a database driver may deliver it.\<close>

definition space_O :: obj where
  "space_O = [(''_id'', JObj [(''$oid'', JStr ''A'')]), (''price'', JNum (Fin 100)),
              (''rating'', JNum (Fin 3))]"

definition sample_user :: user where
  "sample_user =
     \<lparr> user_id = None, user_oid = Some ''u1'', user_name = Some ''Asha'', isVerified = Some True \<rparr>"

text \<open>Space A with a precomputed breakdown attached as \<^verbatim>\<open>__price\<close>.\<close>

definition space_A_cached :: obj where
  "space_A_cached =
     space_A @ [(''__price'', JObj [(''basePrice'', JNum (Fin 50)), (''discountPercent'', JNum (Fin 20)),
                                    (''discountedPrice'', JNum (Fin 40)), (''hasDiscount'', JBool True)])]"

section \<open>Notions used in the statements\<close>

text \<open>
  The handoff events among the effects of a handler: the navigations to the booking flow
  that carry a state.
\<close>

fun handoffs :: "effect list \<Rightarrow> nav_state list" where
  "handoffs [] = []"
| "handoffs (Navigate p (Some st) # es) =
     (if p = ''/vehicle-details'' then st # handoffs es else handoffs es)"
| "handoffs (x # es) = handoffs es"

text \<open>
  The invariant of the fetch lifecycle: the controller of the latest effect run, if there is
  one, belongs to an issued request of a component that is still mounted, and every other
  request has been aborted.
\<close>

definition lifecycle_inv :: "popup \<Rightarrow> bool" where
  "lifecycle_inv s =
     ((case controller s of None \<Rightarrow> True | Some k \<Rightarrow> k < length (requests s) \<and> \<not> unmounted s) \<and>
      list_all (\<lambda>k. controller s = Some k \<or> aborted (requests s ! k)) [0..<length (requests s)])"

text \<open>
  The responses on which the \<^verbatim>\<open>try\<close> block of the handler throws, read off the response: a
  record of the collection is null or undefined, or has a score without a primitive; the
  stats are used and their \<^verbatim>\<open>avg\<close> or \<^verbatim>\<open>count\<close> has no primitive; or the collection has two
  records or more, so that it is sorted, and a record has a \<^verbatim>\<open>createdAt\<close> without a
  primitive.
\<close>

definition response_throws :: "json \<Rightarrow> bool" where
  "response_throws data =
     (list_ex (\<lambda>r. nullish r \<or> unconvertible (member r ''score'')) (ratingsArray data) \<or>
      (stats_used data \<and>
         (unconvertible (member (member data ''stats'') ''avg'') \<or>
          unconvertible (member (member data ''stats'') ''count''))) \<or>
      (2 \<le> length (ratingsArray data) \<and>
         list_ex (\<lambda>r. unconvertible (member r ''createdAt'')) (ratingsArray data)))"

text \<open>
  The mean of the specification, section 4.3 step 4: the score of a record as a number, a
  score that is missing or does not convert to a number counting as zero, summed over the
  collection and divided by its length.
\<close>

definition score_value :: "runtime \<Rightarrow> json \<Rightarrow> jsnum" where
  "score_value rt r = (case ToNumber rt (member r ''score'') of NaN \<Rightarrow> Fin 0 | n \<Rightarrow> n)"

definition mean_score :: "runtime \<Rightarrow> json list \<Rightarrow> jsnum" where
  "mean_score rt rs = js_div_pos (foldl js_add (Fin 0) (map (score_value rt) rs)) (real (length rs))"

section \<open>Properties of the rounding\<close>

lemma rne_of_int [simp]: "rne (of_int n) = n"
  by (simp add: rne_def)

lemma rne_bounds: "\<lfloor>x\<rfloor> \<le> rne x \<and> rne x \<le> \<lfloor>x\<rfloor> + 1"
  by (simp add: rne_def)

lemma rne_mono: "x \<le> y \<Longrightarrow> rne x \<le> rne y"
proof -
  assume xy: "x \<le> y"
  then have fl: "\<lfloor>x\<rfloor> \<le> \<lfloor>y\<rfloor>" by (rule floor_mono)
  show ?thesis
  proof (cases "\<lfloor>x\<rfloor> = \<lfloor>y\<rfloor>")
    case True
    with xy have "x - of_int \<lfloor>x\<rfloor> \<le> y - of_int \<lfloor>y\<rfloor>" by simp
    with True show ?thesis by (auto simp: rne_def)
  next
    case False
    with fl have "\<lfloor>x\<rfloor> + 1 \<le> \<lfloor>y\<rfloor>" by simp
    with rne_bounds [of x] rne_bounds [of y] show ?thesis by linarith
  qed
qed

lemma bexp_ge: "- 1022 \<le> bexp x"
  by (simp add: bexp_def)

lemma bexp_upper: "0 \<le> x \<Longrightarrow> x < 2 powi (bexp x + 1)"
proof -
  assume x: "0 \<le> x"
  let ?N = "\<lfloor>x * 2 ^ 1074\<rfloor>"
  let ?b = "bitlen ?N"
  have b0: "0 \<le> ?b" by (rule bitlen_nonneg)
  have "?N < 2 ^ nat ?b"
  proof (cases "0 < ?N")
    case True
    then show ?thesis using bitlen_bounds [of ?N] by simp
  next
    case False
    then have "?N \<le> 0" by simp
    also have "(0::int) < 2 ^ nat ?b" by simp
    finally show ?thesis .
  qed
  then have "x * 2 ^ 1074 < of_int (2 ^ nat ?b)" by (simp only: floor_less_iff)
  then have "x * 2 ^ 1074 < 2 powi ?b" using b0 by (simp add: power_int_def)
  then have "x < 2 powi ?b / 2 ^ 1074" by (simp add: pos_less_divide_eq)
  also have "2 powi ?b / 2 ^ 1074 = (2::real) powi (?b - 1074)"
    by (simp add: power_int_diff)
  also have "\<dots> \<le> 2 powi (bexp x + 1)"
    by (rule power_int_increasing) (simp_all add: bexp_def)
  finally show ?thesis .
qed

lemma bexp_lower: "- 1022 < bexp x \<Longrightarrow> 2 powi (bexp x) \<le> x"
proof -
  assume e: "- 1022 < bexp x"
  let ?N = "\<lfloor>x * 2 ^ 1074\<rfloor>"
  let ?b = "bitlen ?N"
  from e have be: "bexp x = ?b - 1075" and b: "53 < ?b" by (auto simp: bexp_def max_def split: if_splits)
  from b have pos: "0 < ?N" using bitlen_eq_zero_iff [of ?N] by (cases "0 < ?N") auto
  have "2 ^ nat (?b - 1) \<le> ?N" using bitlen_bounds [OF pos] by simp
  then have "of_int (2 ^ nat (?b - 1)) \<le> x * 2 ^ 1074" by (simp only: le_floor_iff)
  then have "2 powi (?b - 1) \<le> x * 2 ^ 1074" using b by (simp add: power_int_def)
  then have "2 powi (?b - 1) / 2 ^ 1074 \<le> x" by (simp add: pos_divide_le_eq)
  moreover have "2 powi (?b - 1) / 2 ^ 1074 = (2::real) powi (?b - 1 - 1074)"
    by (simp add: power_int_diff)
  ultimately show ?thesis using be by simp
qed

lemma pow2_less_imp_le: "(2::real) powi a < 2 powi (b + 1) \<Longrightarrow> a \<le> b"
proof (rule ccontr)
  assume l: "(2::real) powi a < 2 powi (b + 1)" and "\<not> a \<le> b"
  then have "b + 1 \<le> a" by simp
  then have "(2::real) powi (b + 1) \<le> 2 powi a" by (intro power_int_increasing) simp_all
  with l show False by simp
qed

lemma bexp_eq:
  assumes "2 powi e \<le> x" and "x < 2 powi (e + 1)" and "- 1022 \<le> e"
  shows "bexp x = e"
proof -
  have x0: "0 \<le> x" using assms(1) by (meson order_trans zero_le_power_int zero_le_numeral)
  have up: "x < 2 powi (bexp x + 1)" using x0 by (rule bexp_upper)
  from assms(1) up have "(2::real) powi e < 2 powi (bexp x + 1)" by simp
  then have le1: "e \<le> bexp x" by (rule pow2_less_imp_le)
  show ?thesis
  proof (cases "- 1022 < bexp x")
    case True
    then have "2 powi (bexp x) \<le> x" by (rule bexp_lower)
    with assms(2) have "(2::real) powi (bexp x) < 2 powi (e + 1)" by simp
    then have "bexp x \<le> e" by (rule pow2_less_imp_le)
    with le1 show ?thesis by simp
  next
    case False
    with bexp_ge [of x] have "bexp x = - 1022" by simp
    with le1 assms(3) show ?thesis by simp
  qed
qed

lemma bexp_subnormal: "0 \<le> x \<Longrightarrow> x < 2 powi (- 1022) \<Longrightarrow> bexp x = - 1022"
proof -
  assume x: "0 \<le> x" and s: "x < 2 powi (- 1022)"
  show ?thesis
  proof (cases "- 1022 < bexp x")
    case True
    then have "2 powi (bexp x) \<le> x" by (rule bexp_lower)
    with s have "(2::real) powi (bexp x) < 2 powi (- 1023 + 1)" by simp
    then have "bexp x \<le> - 1023" by (rule pow2_less_imp_le)
    with True show ?thesis by simp
  next
    case False
    with bexp_ge [of x] show ?thesis by simp
  qed
qed

lemma bexp_mono: "0 \<le> x \<Longrightarrow> x \<le> y \<Longrightarrow> bexp x \<le> bexp y"
proof -
  assume x: "0 \<le> x" and xy: "x \<le> y"
  have "\<lfloor>x * 2 ^ 1074\<rfloor> \<le> \<lfloor>y * 2 ^ 1074\<rfloor>" using xy by (intro floor_mono) simp
  then have "nat \<lfloor>x * 2 ^ 1074\<rfloor> \<le> nat \<lfloor>y * 2 ^ 1074\<rfloor>" by simp
  then have "bitlen \<lfloor>x * 2 ^ 1074\<rfloor> \<le> bitlen \<lfloor>y * 2 ^ 1074\<rfloor>"
    unfolding bitlen_def by (simp add: floorlog_mono)
  then show ?thesis by (simp add: bexp_def)
qed


lemma b64p_rounded: "b64p x = (if 2 ^ 1024 \<le> rounded x then PInf else Fin (rounded x))"
  by (simp add: b64p_def)

lemma pow2_nat_int: "(2::real) ^ n * 2 powi k = 2 powi (int n + k)"
  by (simp add: power_int_add)

lemma scale_cancel: "(2::real) powi (52 - e) * 2 powi (e - 52) = 1"
  by (simp flip: power_int_add)

lemma rounded_upper: "0 \<le> x \<Longrightarrow> rounded x \<le> 2 powi (bexp x + 1)"
proof -
  assume x: "0 \<le> x"
  let ?e = "bexp x"
  have "x * 2 powi (52 - ?e) \<le> 2 powi (?e + 1) * 2 powi (52 - ?e)"
    using bexp_upper [OF x] by (intro mult_right_mono) simp_all
  also have "2 powi (?e + 1) * 2 powi (52 - ?e) = (2::real) powi 53"
    by (simp flip: power_int_add)
  also have "\<dots> = of_int (2 ^ 53)" by simp
  finally have "rne (x * 2 powi (52 - ?e)) \<le> rne (of_int (2 ^ 53))" by (rule rne_mono)
  then have "rne (x * 2 powi (52 - ?e)) \<le> 2 ^ 53" by (simp only: rne_of_int)
  then have "real_of_int (rne (x * 2 powi (52 - ?e))) \<le> 2 ^ 53"
    by (metis of_int_le_iff of_int_numeral of_int_power)
  then have "rounded x \<le> 2 ^ 53 * 2 powi (?e - 52)"
    unfolding rounded_def by (intro mult_right_mono) simp_all
  also have "(2::real) ^ 53 * 2 powi (?e - 52) = 2 powi (?e + 1)"
    using pow2_nat_int [of 53 "?e - 52"] by (simp add: add.commute)
  finally show ?thesis .
qed

lemma rounded_lower: "- 1022 < bexp x \<Longrightarrow> 2 powi (bexp x) \<le> rounded x"
proof -
  assume e: "- 1022 < bexp x"
  let ?e = "bexp x"
  have "2 powi ?e * 2 powi (52 - ?e) \<le> x * 2 powi (52 - ?e)"
    using bexp_lower [OF e] by (intro mult_right_mono) simp_all
  moreover have "2 powi ?e * 2 powi (52 - ?e) = (2::real) powi 52"
    by (simp flip: power_int_add)
  moreover have "(2::real) powi 52 = of_int (2 ^ 52)" by simp
  ultimately have "rne (of_int (2 ^ 52)) \<le> rne (x * 2 powi (52 - ?e))"
    by (intro rne_mono) simp
  then have "2 ^ 52 \<le> rne (x * 2 powi (52 - ?e))" by (simp only: rne_of_int)
  then have "2 ^ 52 \<le> real_of_int (rne (x * 2 powi (52 - ?e)))"
    by (metis of_int_le_iff of_int_numeral of_int_power)
  then have "2 ^ 52 * 2 powi (?e - 52) \<le> rounded x"
    unfolding rounded_def by (intro mult_right_mono) simp_all
  moreover have "(2::real) ^ 52 * 2 powi (?e - 52) = 2 powi ?e"
    using pow2_nat_int [of 52 "?e - 52"] by simp
  ultimately show ?thesis by simp
qed

lemma rounded_mono: "0 \<le> x \<Longrightarrow> x \<le> y \<Longrightarrow> rounded x \<le> rounded y"
proof -
  assume x: "0 \<le> x" and xy: "x \<le> y"
  then have y: "0 \<le> y" by simp
  have ee: "bexp x \<le> bexp y" using x xy by (rule bexp_mono)
  show ?thesis
  proof (cases "bexp x = bexp y")
    case True
    have "x * 2 powi (52 - bexp y) \<le> y * 2 powi (52 - bexp y)"
      using xy by (intro mult_right_mono) simp_all
    then have "rne (x * 2 powi (52 - bexp y)) \<le> rne (y * 2 powi (52 - bexp y))" by (rule rne_mono)
    then have "real_of_int (rne (x * 2 powi (52 - bexp y))) * 2 powi (bexp y - 52)
        \<le> real_of_int (rne (y * 2 powi (52 - bexp y))) * 2 powi (bexp y - 52)"
      by (intro mult_right_mono) simp_all
    with True show ?thesis by (simp add: rounded_def)
  next
    case False
    with ee have lt: "bexp x + 1 \<le> bexp y" by simp
    with bexp_ge [of x] have "- 1022 < bexp y" by simp
    then have "2 powi (bexp y) \<le> rounded y" by (rule rounded_lower)
    moreover have "rounded x \<le> 2 powi (bexp x + 1)" using x by (rule rounded_upper)
    moreover have "(2::real) powi (bexp x + 1) \<le> 2 powi (bexp y)"
      using lt by (intro power_int_increasing) simp_all
    ultimately show ?thesis by simp
  qed
qed

lemma b64p_mono: "0 \<le> x \<Longrightarrow> x \<le> y \<Longrightarrow> js_le (b64p x) (b64p y)"
  using rounded_mono [of x y] by (simp add: b64p_rounded)

text \<open>Evaluation at a number whose binade is known.\<close>

lemma b64p_eval:
  assumes "2 powi e \<le> x" and "x < 2 powi (e + 1)" and "- 1022 \<le> e" and "e \<le> 1022"
  shows "b64p x = Fin (of_int (rne (x * 2 powi (52 - e))) * 2 powi (e - 52))"
proof -
  have e: "bexp x = e" using assms(1-3) by (rule bexp_eq)
  have x0: "0 \<le> x" using assms(1) by (meson order_trans zero_le_power_int zero_le_numeral)
  have "rounded x \<le> 2 powi (e + 1)" using rounded_upper [OF x0] e by simp
  also have "(2::real) powi (e + 1) \<le> 2 powi 1023"
    using assms(4) by (intro power_int_increasing) simp_all
  also have "(2::real) powi 1023 < 2 ^ 1024" by simp
  finally have "\<not> 2 ^ 1024 \<le> rounded x" by simp
  then show ?thesis using e by (simp add: b64p_rounded rounded_def)
qed

text \<open>A dyadic number with a significand of at most 53 bits is a binary64 value.\<close>

lemma rounded_exact:
  assumes x: "x = of_int m * 2 powi k" and m0: "0 \<le> m" and m: "m < 2 ^ 53" and k: "- 1074 \<le> k"
  shows "rounded x = x"
proof -
  have x0: "0 \<le> x" using x m0 by simp
  let ?e = "bexp x"
  have ek: "?e - 52 \<le> k"
  proof (cases "- 1022 < ?e")
    case False
    with bexp_ge [of x] have "?e = - 1022" by simp
    with k show ?thesis by simp
  next
    case True
    then have "2 powi ?e \<le> x" by (rule bexp_lower)
    also have "x < 2 ^ 53 * 2 powi k"
    proof -
      have "real_of_int m < 2 ^ 53" using m by (metis of_int_less_iff of_int_numeral of_int_power)
      then show ?thesis unfolding x by (intro mult_strict_right_mono) simp_all
    qed
    also have "(2::real) ^ 53 * 2 powi k = 2 powi (k + 52 + 1)"
      using pow2_nat_int [of 53 k] by (simp add: add.commute)
    finally have "?e \<le> k + 52" by (rule pow2_less_imp_le)
    then show ?thesis by simp
  qed
  then have n: "0 \<le> k - (?e - 52)" by simp
  have "x * 2 powi (52 - ?e) = of_int m * (2 powi k * 2 powi (52 - ?e))" by (simp add: x)
  also have "2 powi k * 2 powi (52 - ?e) = (2::real) powi (k - (?e - 52))"
  proof -
    have "2 powi k * 2 powi (52 - ?e) = (2::real) powi (k + (52 - ?e))"
      by (simp add: power_int_add)
    moreover have "k + (52 - ?e) = k - (?e - 52)" by simp
    ultimately show ?thesis by (simp only:)
  qed
  also have "\<dots> = 2 ^ nat (k - (?e - 52))" using n by (simp add: power_int_def)
  also have "of_int m * \<dots> = real_of_int (m * 2 ^ nat (k - (?e - 52)))" by simp
  finally have "rne (x * 2 powi (52 - ?e)) = m * 2 ^ nat (k - (?e - 52))"
    by (simp only: rne_of_int)
  then have "rounded x = real_of_int (m * 2 ^ nat (k - (?e - 52))) * 2 powi (?e - 52)"
    by (simp add: rounded_def)
  also have "\<dots> = of_int m * (2 ^ nat (k - (?e - 52)) * 2 powi (?e - 52))" by simp
  also have "(2::real) ^ nat (k - (?e - 52)) = 2 powi (k - (?e - 52))" using n by (simp add: power_int_def)
  also have "(2::real) powi (k - (?e - 52)) * 2 powi (?e - 52) = 2 powi k" by (simp flip: power_int_add)
  finally show "rounded x = x" by (simp add: x)
qed

lemma b64p_exact:
  assumes "x = of_int m * 2 powi k" and "0 \<le> m" and "m < 2 ^ 53" and "- 1074 \<le> k"
    and "x < 2 ^ 1024"
  shows "b64p x = Fin x"
  using rounded_exact [OF assms(1-4)] assms(5) by (simp add: b64p_rounded)

lemma b64p_numeral: "(numeral w :: int) < 2 ^ 53 \<Longrightarrow> b64p (numeral w) = Fin (numeral w)"
proof -
  assume w: "(numeral w :: int) < 2 ^ 53"
  then have "real_of_int (numeral w) < real_of_int (2 ^ 53)" by (simp only: of_int_less_iff)
  then have "(numeral w :: real) < 2 ^ 53" by simp
  also have "(2::real) ^ 53 < 2 ^ 1024" by simp
  finally have big: "(numeral w :: real) < 2 ^ 1024" .
  show ?thesis
    by (rule b64p_exact [where m = "numeral w" and k = 0]) (use w big in simp_all)
qed

lemma rounded_eval:
  assumes "2 powi e \<le> x" and "x < 2 powi (e + 1)" and "- 1022 \<le> e"
  shows "rounded x = of_int (rne (x * 2 powi (52 - e))) * 2 powi (e - 52)"
  using bexp_eq [OF assms] by (simp add: rounded_def)

lemma rounded_zero [simp]: "rounded 0 = 0"
  using rounded_exact [of 0 0 0] by simp

lemma rounded_one [simp]: "rounded 1 = 1"
  using rounded_exact [of 1 1 0] by simp

lemma rounded_numeral: "(numeral w :: int) < 2 ^ 53 \<Longrightarrow> rounded (numeral w) = numeral w"
  using rounded_exact [where x = "numeral w" and m = "numeral w" and k = 0] by simp

lemma rounded_nonneg: "0 \<le> x \<Longrightarrow> 0 \<le> rounded x"
  using rounded_mono [of 0 x] by simp

lemma rounded_pow2: "- 1022 \<le> e \<Longrightarrow> rounded (2 powi e) = 2 powi e"
  using rounded_exact [of "2 powi e" 1 e] by simp

text \<open>Rounding moves a number by at most half a unit in the last place.\<close>

lemma rne_error: "\<bar>of_int (rne y) - y\<bar> \<le> 1 / 2"
  unfolding rne_def by (auto simp: abs_le_iff)

lemma rounded_error: "\<bar>rounded x - x\<bar> \<le> 2 powi (bexp x - 53)"
proof -
  let ?e = "bexp x"
  let ?y = "x * 2 powi (52 - ?e)"
  have sc: "(2::real) powi (52 - ?e) * 2 powi (?e - 52) = 1" by (rule scale_cancel)
  have "rounded x - x = (of_int (rne ?y) - ?y) * 2 powi (?e - 52)"
  proof -
    have "?y * 2 powi (?e - 52) = x * (2 powi (52 - ?e) * 2 powi (?e - 52))" by simp
    then have "?y * 2 powi (?e - 52) = x" by (simp only: sc mult_1_right)
    then show ?thesis by (simp add: rounded_def algebra_simps)
  qed
  then have "\<bar>rounded x - x\<bar> = \<bar>of_int (rne ?y) - ?y\<bar> * 2 powi (?e - 52)"
    by (simp add: abs_mult)
  also have "\<dots> \<le> (1 / 2) * 2 powi (?e - 52)"
    using rne_error [of ?y] by (intro mult_right_mono) simp_all
  also have "(1 / 2) * 2 powi (?e - 52) = (2::real) powi (?e - 53)"
    by (simp add: power_int_diff)
  finally show ?thesis .
qed

lemma bexp_le: "0 \<le> x \<Longrightarrow> x \<le> 2 powi e \<Longrightarrow> - 1022 \<le> e \<Longrightarrow> bexp x \<le> e"
proof -
  assume x: "0 \<le> x" and le: "x \<le> 2 powi e" and e: "- 1022 \<le> e"
  have "bexp x \<le> bexp (2 powi e)" using x le by (rule bexp_mono)
  also have "bexp (2 powi e) = e"
    by (rule bexp_eq) (use e in \<open>simp_all add: power_int_strict_increasing\<close>)
  finally show ?thesis .
qed

lemma rounded_error_le:
  assumes "0 \<le> x" and "x \<le> 2 powi e" and "- 1022 \<le> e"
  shows "\<bar>rounded x - x\<bar> \<le> 2 powi (e - 53)"
proof -
  have "bexp x \<le> e" using assms by (rule bexp_le)
  then have "(2::real) powi (bexp x - 53) \<le> 2 powi (e - 53)"
    by (intro power_int_increasing) simp_all
  with rounded_error [of x] show ?thesis by simp
qed

lemma rounded_unit:
  assumes "0 \<le> x" and "x \<le> 1"
  shows "0 \<le> rounded x" and "rounded x \<le> 1" and "\<bar>rounded x - x\<bar> \<le> 2 powi (- 53)"
proof -
  show "0 \<le> rounded x" using assms(1) by (rule rounded_nonneg)
  show "rounded x \<le> 1" using rounded_mono [OF assms] by simp
  show "\<bar>rounded x - x\<bar> \<le> 2 powi (- 53)"
    using rounded_error_le [of x 0] assms by simp
qed

text \<open>The relative error of the rounding of a number that is not subnormal.\<close>

lemma rounded_rel_error:
  assumes "2 powi (- 1022) \<le> x"
  shows "\<bar>rounded x - x\<bar> \<le> x * 2 powi (- 53)"
proof -
  have le: "2 powi (bexp x) \<le> x"
  proof (cases "- 1022 < bexp x")
    case True
    then show ?thesis by (rule bexp_lower)
  next
    case False
    with bexp_ge [of x] have "bexp x = - 1022" by simp
    with assms show ?thesis by simp
  qed
  have "\<bar>rounded x - x\<bar> \<le> 2 powi (bexp x - 53)" by (rule rounded_error)
  also have "(2::real) powi (bexp x - 53) = 2 powi (bexp x) * 2 powi (- 53)"
    by (simp add: power_int_diff power_int_minus field_simps)
  also have "\<dots> \<le> x * 2 powi (- 53)" using le by (intro mult_right_mono) simp_all
  finally show ?thesis .
qed

lemma rounded_between:
  assumes "2 powi (- 1022) \<le> x"
  shows "x * (1 - 1 / 2 ^ 53) \<le> rounded x" and "rounded x \<le> x * (1 + 1 / 2 ^ 53)"
proof -
  have u: "(2::real) powi (- 53) = 1 / 2 ^ 53" by (simp add: power_int_def power_divide)
  from rounded_rel_error [OF assms] have "\<bar>rounded x - x\<bar> \<le> x * (1 / 2 ^ 53)" by (simp only: u)
  then have "rounded x - x \<le> x * (1 / 2 ^ 53)" and "x - rounded x \<le> x * (1 / 2 ^ 53)"
    by (simp_all only: abs_le_iff minus_diff_eq)
  then show "x * (1 - 1 / 2 ^ 53) \<le> rounded x" and "rounded x \<le> x * (1 + 1 / 2 ^ 53)"
    by (simp_all add: algebra_simps)
qed

text \<open>The rounding of a number, finite when the number is.\<close>

lemma b64_nonneg: "0 \<le> x \<Longrightarrow> b64 x = b64p x"
  by (simp add: b64_def)

lemma b64_rounded: "0 \<le> x \<Longrightarrow> rounded x < 2 ^ 1024 \<Longrightarrow> b64 x = Fin (rounded x)"
  by (simp add: b64_def b64p_def)

lemma b64_le: "0 \<le> x \<Longrightarrow> x \<le> y \<Longrightarrow> rounded y < 2 ^ 1024 \<Longrightarrow> b64 x = Fin (rounded x)"
  using rounded_mono [of x y] by (simp add: b64_rounded)

lemma b64_zero [simp]: "b64 0 = Fin 0"
  by (simp add: b64_rounded)

lemma b64_one [simp]: "b64 1 = Fin 1"
  by (simp add: b64_rounded)

lemma b64_numeral [simp]: "(numeral w :: int) < 2 ^ 53 \<Longrightarrow> b64 (numeral w) = Fin (numeral w)"
  by (simp add: b64_def b64p_numeral)

lemma b64_mono: "0 \<le> x \<Longrightarrow> x \<le> y \<Longrightarrow> js_le (b64 x) (b64 y)"
  using b64p_mono [of x y] by (simp add: b64_def)

lemma b64_exact:
  "x = of_int m * 2 powi k \<Longrightarrow> 0 \<le> m \<Longrightarrow> m < 2 ^ 53 \<Longrightarrow> - 1074 \<le> k \<Longrightarrow> x < 2 ^ 1024 \<Longrightarrow> b64 x = Fin x"
proof -
  assume a: "x = of_int m * 2 powi k" "0 \<le> m" "m < 2 ^ 53" "- 1074 \<le> k" "x < 2 ^ 1024"
  then have "0 \<le> x" by simp
  then show ?thesis using b64p_exact [OF a] by (simp add: b64_def)
qed

lemma b64_eval:
  assumes "2 powi e \<le> x" and "x < 2 powi (e + 1)" and "- 1022 \<le> e" and "e \<le> 1022"
  shows "b64 x = Fin (of_int (rne (x * 2 powi (52 - e))) * 2 powi (e - 52))"
proof -
  have "0 < x" using assms(1) by (meson less_le_trans zero_less_power_int zero_less_numeral)
  then show ?thesis using b64p_eval [OF assms] by (simp add: b64_def)
qed

text \<open>A binary64 number is left as it is.\<close>

lemma b64_fixed: "b64 b = Fin b \<Longrightarrow> 0 \<le> b \<Longrightarrow> rounded b = b \<and> b < 2 ^ 1024"
  by (auto simp: b64_def b64p_def split: if_splits)

section \<open>Properties of the price computation\<close>

lemma toFixed2_mono_nonneg: "0 \<le> x \<Longrightarrow> x \<le> y \<Longrightarrow> toFixed2 x \<le> toFixed2 y"
  unfolding toFixed2_def
  by (simp add: divide_right_mono floor_mono)

lemma toFixed2_nonneg: "0 \<le> x \<Longrightarrow> 0 \<le> toFixed2 x"
  using toFixed2_mono_nonneg [of 0 x] by (simp add: toFixed2_def)

lemma floor_near: "x \<le> y + 1 \<Longrightarrow> real_of_int \<lfloor>x\<rfloor> \<le> real_of_int \<lfloor>y\<rfloor> + 1" for x y :: real
proof -
  assume "x \<le> y + 1"
  then have "\<lfloor>x\<rfloor> \<le> \<lfloor>y + 1\<rfloor>" by (rule floor_mono)
  then have "\<lfloor>x\<rfloor> \<le> \<lfloor>y\<rfloor> + 1" by simp
  then have "real_of_int \<lfloor>x\<rfloor> \<le> real_of_int (\<lfloor>y\<rfloor> + 1)" by (simp only: of_int_le_iff)
  then show ?thesis by simp
qed

lemma toFixed2_near:
  assumes "0 \<le> x" and "0 \<le> y" and "\<bar>x - y\<bar> \<le> 1 / 100"
  shows "\<bar>toFixed2 x - toFixed2 y\<bar> \<le> 1 / 100"
proof -
  have "x * 100 + 1 / 2 \<le> (y * 100 + 1 / 2) + 1" using assms(3) by arith
  then have a: "real_of_int \<lfloor>x * 100 + 1 / 2\<rfloor> \<le> real_of_int \<lfloor>y * 100 + 1 / 2\<rfloor> + 1"
    by (rule floor_near)
  have "y * 100 + 1 / 2 \<le> (x * 100 + 1 / 2) + 1" using assms(3) by arith
  then have b: "real_of_int \<lfloor>y * 100 + 1 / 2\<rfloor> \<le> real_of_int \<lfloor>x * 100 + 1 / 2\<rfloor> + 1"
    by (rule floor_near)
  show ?thesis using assms(1,2) a b by (simp add: toFixed2_def abs_le_iff field_simps)
qed

lemma clamped_range: "0 \<le> clamped rt s \<and> clamped rt s \<le> 100"
  by (simp add: clamped_def split: jsnum.split)

lemma clamped_id: "discountNum rt s = Fin d \<Longrightarrow> 0 \<le> d \<Longrightarrow> d \<le> 100 \<Longrightarrow> clamped rt s = d"
  by (simp add: clamped_def)

text \<open>
  The factor \<^verbatim>\<open>1 - clamped / 100\<close>: both operations round, the result lies between 0 and 1
  and is within \<open>2\<^sup>-\<^sup>5\<^sup>2\<close> of the exact factor.
\<close>

lemma discount_factor:
  assumes "0 \<le> d" and "d \<le> 100"
  shows "js_sub (Fin 1) (js_div_pos (Fin d) 100) = Fin (rounded (1 - rounded (d / 100)))"
    and "0 \<le> rounded (1 - rounded (d / 100))"
    and "rounded (1 - rounded (d / 100)) \<le> 1"
    and "\<bar>rounded (1 - rounded (d / 100)) - (1 - d / 100)\<bar> \<le> 2 powi (- 52)"
proof -
  let ?g = "rounded (d / 100)"
  have q: "0 \<le> d / 100" "d / 100 \<le> 1" using assms by simp_all
  note g = rounded_unit [OF q]
  have h: "0 \<le> 1 - ?g" "1 - ?g \<le> 1" using g by simp_all
  note f = rounded_unit [OF h]
  have big: "(1::real) < 2 ^ 1024" by simp
  have bg: "b64 (d / 100) = Fin ?g"
    using q(1) g(2) big by (intro b64_rounded) simp_all
  have bf: "b64 (1 - ?g) = Fin (rounded (1 - ?g))"
    using h(1) f(2) big by (intro b64_rounded) simp_all
  show "js_sub (Fin 1) (js_div_pos (Fin d) 100) = Fin (rounded (1 - ?g))"
    using bg bf by (simp add: js_sub_def)
  show "0 \<le> rounded (1 - ?g)" by (rule f(1))
  show "rounded (1 - ?g) \<le> 1" by (rule f(2))
  have "\<bar>rounded (1 - ?g) - (1 - d / 100)\<bar>
      \<le> \<bar>rounded (1 - ?g) - (1 - ?g)\<bar> + \<bar>?g - d / 100\<bar>" by arith
  also have "\<dots> \<le> 2 powi (- 53) + 2 powi (- 53)" using f(3) g(3) by simp
  also have "\<dots> = (2::real) powi (- 52)" by (simp add: power_int_def power_divide)
  finally show "\<bar>rounded (1 - ?g) - (1 - d / 100)\<bar> \<le> 2 powi (- 52)" .
qed

text \<open>
  The product of a binary64 base price with the factor: it is finite, between 0 and the
  base price, and, for a base price of at most \<open>2\<^sup>4\<^sup>0\<close>, within 0.0005 of the exact product.
\<close>

lemma discounted_product:
  assumes "0 \<le> b" and "b64 b = Fin b" and "0 \<le> d" and "d \<le> 100"
  shows "js_mul (Fin b) (js_sub (Fin 1) (js_div_pos (Fin d) 100))
           = Fin (rounded (b * rounded (1 - rounded (d / 100))))"
    and "0 \<le> rounded (b * rounded (1 - rounded (d / 100)))"
    and "rounded (b * rounded (1 - rounded (d / 100))) \<le> b"
    and "b \<le> 2 ^ 40 \<Longrightarrow>
           \<bar>rounded (b * rounded (1 - rounded (d / 100))) - b * (1 - d / 100)\<bar> < 1 / 2000"
proof -
  let ?f = "rounded (1 - rounded (d / 100))"
  note f = discount_factor [OF assms(3,4)]
  note fx = b64_fixed [OF assms(2,1)]
  have p0: "0 \<le> b * ?f" using assms(1) f(2) by simp
  have pb: "b * ?f \<le> b" using assms(1) f(3) by (simp add: mult_left_le)
  have le: "rounded (b * ?f) \<le> b" using rounded_mono [OF p0 pb] fx by simp
  then have fin: "rounded (b * ?f) < 2 ^ 1024" using fx by simp
  show "js_mul (Fin b) (js_sub (Fin 1) (js_div_pos (Fin d) 100)) = Fin (rounded (b * ?f))"
    unfolding f(1) using p0 fin by (simp add: b64_rounded)
  show "0 \<le> rounded (b * ?f)" using p0 by (rule rounded_nonneg)
  show "rounded (b * ?f) \<le> b" by (rule le)
  show "\<bar>rounded (b * ?f) - b * (1 - d / 100)\<bar> < 1 / 2000" if small: "b \<le> 2 ^ 40"
  proof -
    have "b * ?f \<le> 2 powi 40" using pb small by simp
    then have e1: "\<bar>rounded (b * ?f) - b * ?f\<bar> \<le> 2 powi (40 - 53)"
      using p0 by (intro rounded_error_le) simp_all
    have "\<bar>b * ?f - b * (1 - d / 100)\<bar> = b * \<bar>?f - (1 - d / 100)\<bar>"
      using assms(1) by (simp add: abs_mult flip: right_diff_distrib)
    also have "\<dots> \<le> 2 ^ 40 * 2 powi (- 52)"
      using small assms(1) f(4) by (intro mult_mono) simp_all
    finally have e2: "\<bar>b * ?f - b * (1 - d / 100)\<bar> \<le> 2 ^ 40 * 2 powi (- 52)" .
    have "\<bar>rounded (b * ?f) - b * (1 - d / 100)\<bar>
        \<le> \<bar>rounded (b * ?f) - b * ?f\<bar> + \<bar>b * ?f - b * (1 - d / 100)\<bar>" by arith
    also have "\<dots> \<le> 2 powi (40 - 53) + 2 ^ 40 * 2 powi (- 52)" using e1 e2 by simp
    also have "\<dots> < (1::real) / 2000" by (simp add: power_int_def power_divide)
    finally show ?thesis .
  qed
qed

text \<open>
  A price with at most two decimal places (the binary64 number nearest to \<open>n / 100\<close>, below
  \<open>2\<^sup>5\<^sup>0 / 100\<close>) is left unchanged by \<^verbatim>\<open>+x.toFixed(2)\<close>.
\<close>

lemma two_decimals_fixed:
  assumes "0 \<le> n" and "n < 2 ^ 50"
  shows "\<exists>r. b64 (of_int n / 100) = Fin r \<and> 0 \<le> r \<and> num_toFixed2 (Fin r) = Fin r"
proof -
  let ?x = "real_of_int n / 100"
  have x0: "0 \<le> ?x" using assms(1) by simp
  have "real_of_int n < real_of_int (2 ^ 50)" using assms(2) by (simp only: of_int_less_iff)
  then have n50: "real_of_int n < 2 ^ 50" by simp
  then have xs: "?x \<le> 2 powi 44" by simp
  have e: "\<bar>rounded ?x - ?x\<bar> \<le> 2 powi (44 - 53)"
    using x0 xs by (intro rounded_error_le) simp_all
  have "rounded ?x \<le> rounded (2 powi 44)" using x0 xs by (rule rounded_mono)
  also have "rounded (2 powi 44) = 2 powi 44" by (rule rounded_pow2) simp
  also have "(2::real) powi 44 < 2 ^ 1024" by simp
  finally have fin: "rounded ?x < 2 ^ 1024" .
  have b: "b64 ?x = Fin (rounded ?x)" using x0 fin by (rule b64_rounded)
  have r0: "0 \<le> rounded ?x" using x0 by (rule rounded_nonneg)
  have "(2::real) powi (44 - 53) < 1 / 200" by (simp add: power_int_def power_divide)
  with e have c: "\<bar>rounded ?x - ?x\<bar> < 1 / 200" by simp
  have "real_of_int n \<le> rounded ?x * 100 + 1 / 2 \<and> rounded ?x * 100 + 1 / 2 < real_of_int n + 1"
    using c by arith
  then have "\<lfloor>rounded ?x * 100 + 1 / 2\<rfloor> = n" by (simp only: floor_eq_iff)
  then have "toFixed2 (rounded ?x) = ?x" using r0 by (simp add: toFixed2_def)
  then have "b64 (toFixed2 (rounded ?x)) = b64 ?x" by (simp only:)
  then have "num_toFixed2 (Fin (rounded ?x)) = Fin (rounded ?x)" using b by simp
  with b r0 show ?thesis by blast
qed

text \<open>The breakdown from the results of the single operations.\<close>

lemma breakdown_steps:
  assumes "base rt s = Fin b" and "clamped rt s = d"
    and "b64 (d / 100) = Fin g" and "b64 (1 - g) = Fin f" and "b64 (b * f) = Fin p"
    and "b64 (toFixed2 p) = Fin q" and "b64 (toFixed2 b) = Fin r"
  shows "computeDiscountedPrice rt s
    = \<lparr> basePrice = Fin r, discountPercent = d, discountedPrice = Fin q,
        hasDiscount = (0 < d \<and> q < b) \<rparr>"
  using assms by (simp add: computeDiscountedPrice_def Let_def js_sub_def)

lemma lit_numeral: "(numeral w :: int) < 2 ^ 53 \<Longrightarrow> lit (numeral w) = JNum (Fin (numeral w))"
  by (simp add: lit_def)

lemma lit_one: "lit 1 = JNum (Fin 1)"
  by (simp add: lit_def)

lemma lit_thousandth: "lit (1 / 1000) = JNum (Fin (1152921504606847 / 1152921504606846976))"
  using b64_eval [of "- 10" "1 / 1000"] by (simp add: lit_def rne_def)

lemma lit_half: "lit (1 / 2) = JNum (Fin (1 / 2))"
  using b64_exact [of "1 / 2" 1 "- 1"] by (simp add: lit_def)

lemma lit_19_2: "lit (19 / 2) = JNum (Fin (19 / 2))"
  using b64_exact [of "19 / 2" 19 "- 1"] by (simp add: lit_def)

lemma lit_100004: "lit (100004 / 1000) = JNum (Fin (7037155892743111 / 70368744177664))"
  using b64_eval [of 6 "100004 / 1000"] by (simp add: lit_def rne_def)

lemma lit_6_1000: "lit (6 / 1000) = JNum (Fin (3458764513820541 / 576460752303423488))"
  using b64_eval [of "- 8" "6 / 1000"] by (simp add: lit_def rne_def)

lemma b64_hundredth: "b64 (1 / 100) = Fin (5764607523034235 / 576460752303423488)"
  using b64_eval [of "- 7" "1 / 100"] by (simp add: rne_def)

lemma b64_49: "b64 (49 / 100) = Fin (2206763817411543 / 4503599627370496)"
  using b64_eval [of "- 2" "49 / 100"] by (simp add: rne_def)

lemma b64_1901: "b64 (1901 / 100) = Fin (5350839307269571 / 281474976710656)"
  using b64_eval [of 4 "1901 / 100"] by (simp add: rne_def)

text \<open>The factor for the discounts 0.001, 1, 9.5 and 10 percent.\<close>

lemma factor_tiny:
  "b64 ((1152921504606847 / 1152921504606846976) / 100) = Fin (5902958103587057 / 590295810358705651712)"
  "b64 (1 - 5902958103587057 / 590295810358705651712) = Fin (9007109182748445 / 9007199254740992)"
  using b64_eval [of "- 17" "(1152921504606847 / 1152921504606846976) / 100"]
    b64_eval [of "- 1" "1 - 5902958103587057 / 590295810358705651712"]
  by (simp_all add: rne_def)

lemma factor_1:
  "b64 (1 / 100) = Fin (5764607523034235 / 576460752303423488)"
  "b64 (1 - 5764607523034235 / 576460752303423488) = Fin (4458563631096791 / 4503599627370496)"
  using b64_eval [of "- 7" "1 / 100"] b64_eval [of "- 1" "1 - 5764607523034235 / 576460752303423488"]
  by (simp_all add: rne_def)

lemma factor_19_2:
  "b64 ((19 / 2) / 100) = Fin (3422735716801577 / 36028797018963968)"
  "b64 (1 - 3422735716801577 / 36028797018963968) = Fin (4075757662770299 / 4503599627370496)"
  using b64_eval [of "- 4" "(19 / 2) / 100"] b64_eval [of "- 1" "1 - 3422735716801577 / 36028797018963968"]
  by (simp_all add: rne_def)

lemma factor_10:
  "b64 (10 / 100) = Fin (3602879701896397 / 36028797018963968)"
  "b64 (1 - 3602879701896397 / 36028797018963968) = Fin (8106479329266893 / 9007199254740992)"
  using b64_eval [of "- 4" "10 / 100"] b64_eval [of "- 1" "1 - 3602879701896397 / 36028797018963968"]
  by (simp_all add: rne_def)

text \<open>The breakdowns of the worked examples.\<close>

lemma price_100_tiny:
  "computeDiscountedPrice rt [(''price'', lit 100), (''discount'', lit (1 / 1000))]
     = \<lparr> basePrice = Fin 100, discountPercent = 1152921504606847 / 1152921504606846976,
         discountedPrice = Fin 100, hasDiscount = False \<rparr>"
proof -
  let ?s = "[(''price'', lit 100), (''discount'', lit (1 / 1000))]"
  have b: "base rt ?s = Fin 100"
    by (simp add: base_def field_def coalesce_def lit_numeral num_or_zero_def)
  have d: "clamped rt ?s = 1152921504606847 / 1152921504606846976"
    by (simp add: clamped_def discountNum_def rawDiscount_def field_def coalesce_def lit_thousandth)
  have p: "b64 (100 * (9007109182748445 / 9007199254740992)) = Fin (7036804049022223 / 70368744177664)"
    using b64_eval [of 6 "100 * (9007109182748445 / 9007199254740992)"] by (simp add: rne_def)
  have q: "b64 (toFixed2 (7036804049022223 / 70368744177664)) = Fin 100"
    by (simp add: toFixed2_def)
  have r: "b64 (toFixed2 100) = Fin 100" by (simp add: toFixed2_def)
  show ?thesis using breakdown_steps [OF b d factor_tiny p q r] by simp
qed

lemma price_100004_tiny:
  "computeDiscountedPrice rt [(''price'', lit (100004 / 1000)), (''discount'', lit (1 / 1000))]
     = \<lparr> basePrice = Fin 100, discountPercent = 1152921504606847 / 1152921504606846976,
         discountedPrice = Fin 100, hasDiscount = True \<rparr>"
proof -
  let ?s = "[(''price'', lit (100004 / 1000)), (''discount'', lit (1 / 1000))]"
  have b: "base rt ?s = Fin (7037155892743111 / 70368744177664)"
    unfolding lit_100004 by (simp add: base_def field_def coalesce_def num_or_zero_def)
  have d: "clamped rt ?s = 1152921504606847 / 1152921504606846976"
    by (simp add: clamped_def discountNum_def rawDiscount_def field_def coalesce_def lit_thousandth)
  have p: "b64 ((7037155892743111 / 70368744177664) * (9007109182748445 / 9007199254740992))
      = Fin (879635690148023 / 8796093022208)"
    using b64_eval [of 6 "(7037155892743111 / 70368744177664) * (9007109182748445 / 9007199254740992)"]
    by (simp add: rne_def)
  have q: "b64 (toFixed2 (879635690148023 / 8796093022208)) = Fin 100"
    by (simp add: toFixed2_def)
  have r: "b64 (toFixed2 (7037155892743111 / 70368744177664)) = Fin 100" by (simp add: toFixed2_def)
  show ?thesis using breakdown_steps [OF b d factor_tiny p q r] by simp
qed

lemma price_half_1:
  "computeDiscountedPrice rt [(''price'', lit (1 / 2)), (''discount'', lit 1)]
     = \<lparr> basePrice = Fin (1 / 2), discountPercent = 1,
         discountedPrice = Fin (2206763817411543 / 4503599627370496), hasDiscount = True \<rparr>"
proof -
  let ?s = "[(''price'', lit (1 / 2)), (''discount'', lit 1)]"
  have b: "base rt ?s = Fin (1 / 2)"
    by (simp add: base_def field_def coalesce_def lit_half num_or_zero_def)
  have d: "clamped rt ?s = 1"
    by (simp add: clamped_def discountNum_def rawDiscount_def field_def coalesce_def lit_one)
  have p: "b64 ((1 / 2) * (4458563631096791 / 4503599627370496)) = Fin (4458563631096791 / 9007199254740992)"
    using b64_eval [of "- 2" "(1 / 2) * (4458563631096791 / 4503599627370496)"] by (simp add: rne_def)
  have q: "b64 (toFixed2 (4458563631096791 / 9007199254740992)) = Fin (2206763817411543 / 4503599627370496)"
    using b64_49 by (simp add: toFixed2_def)
  have r: "b64 (toFixed2 (1 / 2)) = Fin (1 / 2)"
    using b64_exact [of "1 / 2" 1 "- 1"] by (simp add: toFixed2_def)
  show ?thesis using breakdown_steps [OF b d factor_1 p q r] by simp
qed

lemma price_21_19_2:
  "computeDiscountedPrice rt [(''price'', lit 21), (''discount'', lit (19 / 2))]
     = \<lparr> basePrice = Fin 21, discountPercent = 19 / 2, discountedPrice = Fin 19, hasDiscount = True \<rparr>"
proof -
  let ?s = "[(''price'', lit 21), (''discount'', lit (19 / 2))]"
  have b: "base rt ?s = Fin 21"
    by (simp add: base_def field_def coalesce_def lit_numeral num_or_zero_def)
  have d: "clamped rt ?s = 19 / 2"
    by (simp add: clamped_def discountNum_def rawDiscount_def field_def coalesce_def lit_19_2)
  have p: "b64 (21 * (4075757662770299 / 4503599627370496)) = Fin (5349431932386017 / 281474976710656)"
    using b64_eval [of 4 "21 * (4075757662770299 / 4503599627370496)"] by (simp add: rne_def)
  have q: "b64 (toFixed2 (5349431932386017 / 281474976710656)) = Fin 19"
    by (simp add: toFixed2_def)
  have r: "b64 (toFixed2 21) = Fin 21" by (simp add: toFixed2_def)
  show ?thesis using breakdown_steps [OF b d factor_19_2 p q r] by simp
qed

lemma price_200_10:
  "computeDiscountedPrice sample_runtime [(''price'', lit 200), (''discount'', JStr ''10%'')]
     = \<lparr> basePrice = Fin 200, discountPercent = 10, discountedPrice = Fin 180, hasDiscount = True \<rparr>"
proof -
  let ?s = "[(''price'', lit 200), (''discount'', JStr ''10%'')]"
  have b: "base sample_runtime ?s = Fin 200"
    by (simp add: base_def field_def coalesce_def lit_numeral num_or_zero_def)
  have d: "clamped sample_runtime ?s = 10"
    by (simp add: clamped_def discountNum_def rawDiscount_def field_def coalesce_def sample_runtime_def)
  have p: "b64 (200 * (8106479329266893 / 9007199254740992)) = Fin 180"
    using b64_eval [of 7 "200 * (8106479329266893 / 9007199254740992)"] by (simp add: rne_def)
  have q: "b64 (toFixed2 180) = Fin 180" by (simp add: toFixed2_def)
  have r: "b64 (toFixed2 200) = Fin 200" by (simp add: toFixed2_def)
  show ?thesis using breakdown_steps [OF b d factor_10 p q r] by simp
qed

lemma price_6_1000:
  "computeDiscountedPrice rt [(''price'', lit (6 / 1000))]
     = \<lparr> basePrice = Fin (5764607523034235 / 576460752303423488), discountPercent = 0,
         discountedPrice = Fin (5764607523034235 / 576460752303423488), hasDiscount = False \<rparr>"
proof -
  let ?s = "[(''price'', lit (6 / 1000))]"
  have b: "base rt ?s = Fin (3458764513820541 / 576460752303423488)"
    unfolding lit_6_1000 by (simp add: base_def field_def coalesce_def num_or_zero_def)
  have d: "clamped rt ?s = 0"
    by (simp add: clamped_def discountNum_def rawDiscount_def field_def coalesce_def)
  have g: "b64 (0 / 100) = Fin 0" by simp
  have f: "b64 (1 - 0) = Fin 1" by simp
  have p: "b64 ((3458764513820541 / 576460752303423488) * 1) = Fin (3458764513820541 / 576460752303423488)"
    using b64_exact [of "3458764513820541 / 576460752303423488" 3458764513820541 "- 59"] by simp
  have q: "b64 (toFixed2 (3458764513820541 / 576460752303423488)) = Fin (5764607523034235 / 576460752303423488)"
    using b64_hundredth by (simp add: toFixed2_def)
  show ?thesis using breakdown_steps [OF b d g f p q q] by simp
qed

text \<open>
  Claim C3, as the code has it. For a space on which \<^verbatim>\<open>computeDiscountedPrice\<close> returns, with
  the finite base price \<open>b\<close> (in particular every \<open>b \<ge> 0\<close>) and the clamped percentage
  \<open>d = clamped rt s\<close>: the discounted price is the binary64 product \<open>b * (1 - d / 100)\<close>
  rounded to two decimal places, and \<^verbatim>\<open>hasDiscount\<close> is true exactly when \<open>d > 0\<close> and the
  discounted price is strictly below the base price \<open>b\<close> itself, which the comparison of
  line 213 does not round. When rounding to two decimal places leaves \<open>b\<close> unchanged (lemma
  \<open>two_decimals_fixed\<close>: a price given with at most two decimal places) this is the comparison
  of the discounted price with the \<^verbatim>\<open>basePrice\<close> of the breakdown, the two rounded prices.
  With \<open>b = 100\<close> and the discount 0.001 the flag is false.
\<close>

theorem hasDiscount_iff:
  assumes "base rt s = Fin b" and "\<not> computeDiscountedPrice_throws s"
  shows "hasDiscount (computeDiscountedPrice rt s)
           = (0 < clamped rt s \<and> js_lt (discountedPrice (computeDiscountedPrice rt s)) (Fin b))
       \<and> discountedPrice (computeDiscountedPrice rt s)
           = num_toFixed2 (js_mul (Fin b) (js_sub (Fin 1) (js_div_pos (Fin (clamped rt s)) 100)))
       \<and> basePrice (computeDiscountedPrice rt s) = num_toFixed2 (Fin b)
       \<and> (num_toFixed2 (Fin b) = Fin b \<longrightarrow>
            hasDiscount (computeDiscountedPrice rt s)
              = (0 < clamped rt s \<and>
                 js_lt (discountedPrice (computeDiscountedPrice rt s))
                       (basePrice (computeDiscountedPrice rt s))))
       \<and> hasDiscount (computeDiscountedPrice rt [(''price'', lit 100), (''discount'', lit (1 / 1000))])
           = False"
proof -
  have ex: "hasDiscount (computeDiscountedPrice rt [(''price'', lit 100), (''discount'', lit (1 / 1000))])
           = False"
    by (simp only: price_100_tiny PriceBreakdown.simps)
  show ?thesis using assms(1) ex by (simp add: computeDiscountedPrice_def Let_def)
qed

text \<open>
  The theorem at the price 0.5 with a discount of 1 percent: the binary64 product is just
  below 0.495, so the discounted price is 0.49; the flag is set, and, 0.5 having no more
  than two decimal places, the discounted price is below the \<^verbatim>\<open>basePrice\<close> 0.5.
\<close>

theorem hasDiscount_iff_witness:
  "hasDiscount (computeDiscountedPrice sample_runtime [(''price'', lit (1 / 2)), (''discount'', lit 1)])
     = True
   \<and> js_mul (Fin (1 / 2)) (js_sub (Fin 1) (js_div_pos (Fin 1) 100))
     = Fin (4458563631096791 / 9007199254740992)
   \<and> discountedPrice (computeDiscountedPrice sample_runtime
        [(''price'', lit (1 / 2)), (''discount'', lit 1)]) = b64 (49 / 100)
   \<and> basePrice (computeDiscountedPrice sample_runtime
        [(''price'', lit (1 / 2)), (''discount'', lit 1)]) = Fin (1 / 2)
   \<and> js_lt (discountedPrice (computeDiscountedPrice sample_runtime
              [(''price'', lit (1 / 2)), (''discount'', lit 1)]))
           (basePrice (computeDiscountedPrice sample_runtime
              [(''price'', lit (1 / 2)), (''discount'', lit 1)]))"
proof -
  let ?s = "[(''price'', lit (1 / 2)), (''discount'', lit 1)]"
  have b: "base sample_runtime ?s = Fin (1 / 2)"
    by (simp add: base_def field_def coalesce_def lit_half num_or_zero_def)
  have n: "\<not> computeDiscountedPrice_throws ?s"
    by (simp add: computeDiscountedPrice_throws_def field_def coalesce_def lit_def)
  have c: "clamped sample_runtime ?s = 1"
    by (simp add: clamped_def discountNum_def rawDiscount_def field_def coalesce_def lit_one)
  have m: "js_mul (Fin (1 / 2)) (js_sub (Fin 1) (js_div_pos (Fin 1) 100))
     = Fin (4458563631096791 / 9007199254740992)"
    using factor_1 b64_eval [of "- 2" "(1 / 2) * (4458563631096791 / 4503599627370496)"]
    by (simp add: js_sub_def rne_def)
  have t: "toFixed2 (4458563631096791 / 9007199254740992) = 49 / 100" by (simp add: toFixed2_def)
  have f: "num_toFixed2 (Fin (1 / 2)) = Fin (1 / 2)"
    using b64_exact [of "1 / 2" 1 "- 1"] by (simp add: toFixed2_def)
  note h = hasDiscount_iff [OF b n, unfolded c]
  have h1: "hasDiscount (computeDiscountedPrice sample_runtime ?s)
      = ((0::real) < 1 \<and> js_lt (discountedPrice (computeDiscountedPrice sample_runtime ?s)) (Fin (1 / 2)))"
    using h by blast
  have h2: "discountedPrice (computeDiscountedPrice sample_runtime ?s)
      = num_toFixed2 (js_mul (Fin (1 / 2)) (js_sub (Fin 1) (js_div_pos (Fin 1) 100)))"
    using h by blast
  have h3: "basePrice (computeDiscountedPrice sample_runtime ?s) = num_toFixed2 (Fin (1 / 2))"
    using h by blast
  have x2: "discountedPrice (computeDiscountedPrice sample_runtime ?s) = b64 (49 / 100)"
    unfolding h2 m by (simp only: num_toFixed2.simps t)
  have x3: "basePrice (computeDiscountedPrice sample_runtime ?s) = Fin (1 / 2)"
    unfolding h3 by (rule f)
  have x1: "hasDiscount (computeDiscountedPrice sample_runtime ?s) = True"
    unfolding h1 x2 b64_49 by simp
  have h4: "num_toFixed2 (Fin (1 / 2)) = Fin (1 / 2) \<longrightarrow>
      hasDiscount (computeDiscountedPrice sample_runtime ?s)
        = ((0::real) < 1 \<and> js_lt (discountedPrice (computeDiscountedPrice sample_runtime ?s))
                                  (basePrice (computeDiscountedPrice sample_runtime ?s)))"
    using h by blast
  have x4: "js_lt (discountedPrice (computeDiscountedPrice sample_runtime ?s))
                  (basePrice (computeDiscountedPrice sample_runtime ?s))"
    using h4 f x1 by simp
  from x1 m x2 x3 x4 show ?thesis by blast
qed

text \<open>
  Claim C3 as stated fails at the base price 100.004 with the discount 0.001 percent: the
  discounted price is 100.00 and the base price rounded to two decimal places is 100.00,
  so the first is not below the second, yet the flag is set, because 100.00 is below the
  unrounded 100.004.
\<close>

theorem hasDiscount_unrounded_base:
  "base sample_runtime [(''price'', lit (100004 / 1000)), (''discount'', lit (1 / 1000))]
     = b64 (100004 / 1000)
   \<and> Fin (clamped sample_runtime [(''price'', lit (100004 / 1000)), (''discount'', lit (1 / 1000))])
     = b64 (1 / 1000)
   \<and> hasDiscount (computeDiscountedPrice sample_runtime
        [(''price'', lit (100004 / 1000)), (''discount'', lit (1 / 1000))]) = True
   \<and> discountedPrice (computeDiscountedPrice sample_runtime
        [(''price'', lit (100004 / 1000)), (''discount'', lit (1 / 1000))]) = Fin 100
   \<and> basePrice (computeDiscountedPrice sample_runtime
        [(''price'', lit (100004 / 1000)), (''discount'', lit (1 / 1000))]) = Fin 100
   \<and> \<not> js_lt (discountedPrice (computeDiscountedPrice sample_runtime
                [(''price'', lit (100004 / 1000)), (''discount'', lit (1 / 1000))]))
             (basePrice (computeDiscountedPrice sample_runtime
                [(''price'', lit (100004 / 1000)), (''discount'', lit (1 / 1000))]))"
proof -
  let ?s = "[(''price'', lit (100004 / 1000)), (''discount'', lit (1 / 1000))]"
  have l1: "lit (100004 / 1000) = JNum (b64 (100004 / 1000))" by (simp only: lit_def)
  have l2: "lit (1 / 1000) = JNum (b64 (1 / 1000))" by (simp only: lit_def)
  have b: "base sample_runtime ?s = b64 (100004 / 1000)"
    using lit_100004 [unfolded l1] unfolding l1
    by (simp add: base_def field_def coalesce_def num_or_zero_def)
  have c: "Fin (clamped sample_runtime ?s) = b64 (1 / 1000)"
    using lit_thousandth [unfolded l2] unfolding l2
    by (simp add: clamped_def discountNum_def rawDiscount_def field_def coalesce_def)
  show ?thesis using b c by (simp only: price_100004_tiny PriceBreakdown.simps js_lt.simps) simp
qed

text \<open>
  Claim C4, as the code has it. For a space on which \<^verbatim>\<open>computeDiscountedPrice\<close> returns, with
  a base price \<open>b \<ge> 0\<close> (a binary64 number) and a discount percentage \<open>d\<close> in \<open>[0, 100]\<close>: the
  discounted price is the binary64 product \<open>b * (1 - d / 100)\<close>, every operation rounded,
  rounded to two decimal places. It is at most the base price rounded to two decimal
  places, which is the \<^verbatim>\<open>basePrice\<close> of the breakdown, and at most \<open>b\<close> itself whenever
  rounding to two decimal places leaves \<open>b\<close> unchanged. For \<open>b \<le> 2\<^sup>4\<^sup>0\<close> the binary64 product
  is within 0.0005 of the exact product, and its rounding to two decimal places within
  0.01 of the rounding of the exact product.
\<close>

theorem discountedPrice_rounded:
  assumes "base rt s = Fin b" and "0 \<le> b" and "b64 b = Fin b"
    and "discountNum rt s = Fin d" and "0 \<le> d" and "d \<le> 100"
    and "\<not> computeDiscountedPrice_throws s"
  shows "discountedPrice (computeDiscountedPrice rt s)
           = num_toFixed2 (js_mul (Fin b) (js_sub (Fin 1) (js_div_pos (Fin d) 100)))
       \<and> basePrice (computeDiscountedPrice rt s) = num_toFixed2 (Fin b)
       \<and> js_le (discountedPrice (computeDiscountedPrice rt s)) (basePrice (computeDiscountedPrice rt s))
       \<and> (num_toFixed2 (Fin b) = Fin b \<longrightarrow>
            js_le (discountedPrice (computeDiscountedPrice rt s)) (Fin b))
       \<and> (b \<le> 2 ^ 40 \<longrightarrow>
            (\<exists>p. js_mul (Fin b) (js_sub (Fin 1) (js_div_pos (Fin d) 100)) = Fin p
                \<and> \<bar>p - b * (1 - d / 100)\<bar> < 1 / 2000
                \<and> discountedPrice (computeDiscountedPrice rt s) = b64 (toFixed2 p)
                \<and> \<bar>toFixed2 p - toFixed2 (b * (1 - d / 100))\<bar> \<le> 1 / 100))"
proof -
  let ?p = "rounded (b * rounded (1 - rounded (d / 100)))"
  let ?D = "discountedPrice (computeDiscountedPrice rt s)"
  have c: "clamped rt s = d" using assms by (simp add: clamped_id)
  note P = discounted_product [OF assms(2,3,5,6)]
  have dp: "?D = num_toFixed2 (js_mul (Fin b) (js_sub (Fin 1) (js_div_pos (Fin d) 100)))"
    using assms(1) c by (simp add: computeDiscountedPrice_def Let_def)
  have bp: "basePrice (computeDiscountedPrice rt s) = num_toFixed2 (Fin b)"
    using assms(1) by (simp add: computeDiscountedPrice_def Let_def)
  have dv: "?D = b64 (toFixed2 ?p)" unfolding dp P(1) by simp
  have "js_le (b64 (toFixed2 ?p)) (b64 (toFixed2 b))"
    using P(2,3) by (intro b64_mono toFixed2_nonneg toFixed2_mono_nonneg)
  then have le: "js_le ?D (basePrice (computeDiscountedPrice rt s))" by (simp add: dv bp)
  have le2: "js_le ?D (Fin b)" if "num_toFixed2 (Fin b) = Fin b"
    using le that by (simp add: bp)
  have near: "\<exists>p. js_mul (Fin b) (js_sub (Fin 1) (js_div_pos (Fin d) 100)) = Fin p
                \<and> \<bar>p - b * (1 - d / 100)\<bar> < 1 / 2000
                \<and> ?D = b64 (toFixed2 p)
                \<and> \<bar>toFixed2 p - toFixed2 (b * (1 - d / 100))\<bar> \<le> 1 / 100"
    if small: "b \<le> 2 ^ 40"
  proof -
    have x0: "0 \<le> b * (1 - d / 100)" using assms(2,6) by simp
    have e: "\<bar>?p - b * (1 - d / 100)\<bar> < 1 / 2000" using small by (rule P(4))
    then have "\<bar>?p - b * (1 - d / 100)\<bar> \<le> 1 / 100" by simp
    then have "\<bar>toFixed2 ?p - toFixed2 (b * (1 - d / 100))\<bar> \<le> 1 / 100"
      using P(2) x0 by (intro toFixed2_near)
    with P(1) e dv show ?thesis by blast
  qed
  from dp bp le le2 near show ?thesis by blast
qed

text \<open>
  The theorem at a space priced 200 with the discount string \<^verbatim>\<open>10%\<close>: the percent sign is
  removed, the string \<^verbatim>\<open>10\<close> converts to ten, the binary64 product is 180 and so is the
  discounted price, which is at most the base price and equal to the exact product rounded
  to two decimal places.
\<close>

theorem discountedPrice_rounded_witness:
  "discountedPrice (computeDiscountedPrice sample_runtime
      [(''price'', lit 200), (''discount'', JStr ''10%'')]) = Fin 180
   \<and> basePrice (computeDiscountedPrice sample_runtime
      [(''price'', lit 200), (''discount'', JStr ''10%'')]) = Fin 200
   \<and> js_le (discountedPrice (computeDiscountedPrice sample_runtime
              [(''price'', lit 200), (''discount'', JStr ''10%'')])) (Fin 200)
   \<and> js_mul (Fin 200) (js_sub (Fin 1) (js_div_pos (Fin 10) 100)) = Fin 180
   \<and> toFixed2 (200 * (1 - 10 / 100)) = 180"
proof -
  let ?s = "[(''price'', lit 200), (''discount'', JStr ''10%'')]"
  have b: "base sample_runtime ?s = Fin 200"
    by (simp add: base_def field_def coalesce_def lit_numeral num_or_zero_def)
  have d: "discountNum sample_runtime ?s = Fin 10"
    by (simp add: discountNum_def rawDiscount_def field_def coalesce_def sample_runtime_def)
  have n: "\<not> computeDiscountedPrice_throws ?s"
    by (simp add: computeDiscountedPrice_throws_def field_def coalesce_def lit_def)
  have m: "js_mul (Fin 200) (js_sub (Fin 1) (js_div_pos (Fin 10) 100)) = Fin 180"
    using factor_10 b64_eval [of 7 "200 * (8106479329266893 / 9007199254740992)"]
    by (simp add: js_sub_def rne_def)
  have f: "num_toFixed2 (Fin 200) = Fin 200" by (simp add: toFixed2_def)
  have g: "num_toFixed2 (Fin 180) = Fin 180" by (simp add: toFixed2_def)
  have r: "toFixed2 (200 * (1 - 10 / 100)) = 180" by (simp add: toFixed2_def)
  have h: "discountedPrice (computeDiscountedPrice sample_runtime ?s)
           = num_toFixed2 (js_mul (Fin 200) (js_sub (Fin 1) (js_div_pos (Fin 10) 100)))
       \<and> basePrice (computeDiscountedPrice sample_runtime ?s) = num_toFixed2 (Fin 200)
       \<and> js_le (discountedPrice (computeDiscountedPrice sample_runtime ?s))
               (basePrice (computeDiscountedPrice sample_runtime ?s))
       \<and> (num_toFixed2 (Fin 200) = Fin 200 \<longrightarrow>
            js_le (discountedPrice (computeDiscountedPrice sample_runtime ?s)) (Fin 200))
       \<and> (200 \<le> (2::real) ^ 40 \<longrightarrow>
            (\<exists>p. js_mul (Fin 200) (js_sub (Fin 1) (js_div_pos (Fin 10) 100)) = Fin p
                \<and> \<bar>p - 200 * (1 - 10 / 100)\<bar> < 1 / 2000
                \<and> discountedPrice (computeDiscountedPrice sample_runtime ?s) = b64 (toFixed2 p)
                \<and> \<bar>toFixed2 p - toFixed2 (200 * (1 - 10 / 100))\<bar> \<le> 1 / 100))"
    by (rule discountedPrice_rounded [OF b _ _ d _ _ n]) simp_all
  have h1: "discountedPrice (computeDiscountedPrice sample_runtime ?s)
           = num_toFixed2 (js_mul (Fin 200) (js_sub (Fin 1) (js_div_pos (Fin 10) 100)))"
    using h by blast
  have h2: "basePrice (computeDiscountedPrice sample_runtime ?s) = num_toFixed2 (Fin 200)"
    using h by blast
  have x1: "discountedPrice (computeDiscountedPrice sample_runtime ?s) = Fin 180"
    unfolding h1 m by (rule g)
  have x2: "basePrice (computeDiscountedPrice sample_runtime ?s) = Fin 200"
    unfolding h2 by (rule f)
  have x3: "js_le (discountedPrice (computeDiscountedPrice sample_runtime ?s)) (Fin 200)"
    using h f by blast
  from x1 x2 x3 m r show ?thesis by blast
qed

text \<open>
  Claim C4 as stated fails at two inputs. At the base price 21 with a discount of 9.5
  percent the exact product is 19.005, which rounds to 19.01, but the binary64 product is
  just below 19.005 and the discounted price is 19.00. At the base price 0.006 with no
  discount the discounted price is 0.006 rounded to two decimal places, 0.01, which is
  above the base price.
\<close>

theorem discountedPrice_above_base:
  "base sample_runtime [(''price'', lit 21), (''discount'', lit (19 / 2))] = Fin 21
   \<and> discountNum sample_runtime [(''price'', lit 21), (''discount'', lit (19 / 2))] = Fin (19 / 2)
   \<and> discountedPrice (computeDiscountedPrice sample_runtime
        [(''price'', lit 21), (''discount'', lit (19 / 2))]) = Fin 19
   \<and> toFixed2 (21 * (1 - (19 / 2) / 100)) = 1901 / 100
   \<and> js_lt (Fin 19) (b64 (1901 / 100))
   \<and> base sample_runtime [(''price'', lit (6 / 1000))] = b64 (6 / 1000)
   \<and> discountNum sample_runtime [(''price'', lit (6 / 1000))] = Fin 0
   \<and> discountedPrice (computeDiscountedPrice sample_runtime [(''price'', lit (6 / 1000))])
       = b64 (1 / 100)
   \<and> \<not> js_le (discountedPrice (computeDiscountedPrice sample_runtime [(''price'', lit (6 / 1000))]))
              (base sample_runtime [(''price'', lit (6 / 1000))])"
proof -
  let ?s = "[(''price'', lit 21), (''discount'', lit (19 / 2))]"
  let ?t = "[(''price'', lit (6 / 1000))]"
  have l: "lit (6 / 1000) = JNum (b64 (6 / 1000))" by (simp only: lit_def)
  have a1: "base sample_runtime ?s = Fin 21"
    by (simp add: base_def field_def coalesce_def lit_numeral num_or_zero_def)
  have a2: "discountNum sample_runtime ?s = Fin (19 / 2)"
    by (simp add: discountNum_def rawDiscount_def field_def coalesce_def lit_19_2)
  have a3: "discountedPrice (computeDiscountedPrice sample_runtime ?s) = Fin 19"
    by (simp only: price_21_19_2 PriceBreakdown.simps)
  have a4: "toFixed2 (21 * (1 - (19 / 2) / 100)) = 1901 / 100" by (simp add: toFixed2_def)
  have a5: "js_lt (Fin 19) (b64 (1901 / 100))" by (simp add: b64_1901)
  have v: "b64 (6 / 1000) = Fin (3458764513820541 / 576460752303423488)"
    using lit_6_1000 [unfolded l] by simp
  have b1: "base sample_runtime ?t = b64 (6 / 1000)"
    unfolding l v by (simp add: base_def field_def coalesce_def num_or_zero_def)
  have b2: "discountNum sample_runtime ?t = Fin 0"
    by (simp add: discountNum_def rawDiscount_def field_def coalesce_def)
  have b3: "discountedPrice (computeDiscountedPrice sample_runtime ?t) = b64 (1 / 100)"
    by (simp only: price_6_1000 PriceBreakdown.simps b64_hundredth)
  have b4: "\<not> js_le (discountedPrice (computeDiscountedPrice sample_runtime ?t)) (base sample_runtime ?t)"
    unfolding b3 b1 v b64_hundredth by simp
  from a1 a2 a3 a4 a5 b1 b2 b3 b4 show ?thesis by blast
qed

section \<open>Properties of the fetch lifecycle\<close>

lemma lifecycle_inv_iff:
  "lifecycle_inv s \<longleftrightarrow>
     (\<forall>k. controller s = Some k \<longrightarrow> k < length (requests s) \<and> \<not> unmounted s) \<and>
     (\<forall>k < length (requests s). controller s \<noteq> Some k \<longrightarrow> aborted (requests s ! k))"
  by (auto simp: lifecycle_inv_def list_all_iff split: option.splits)

lemma inv_mount: "lifecycle_inv (mount rt space)"
  by (simp add: lifecycle_inv_def mount_def)

lemma abort_fields [simp]:
  "controller (abort s) = controller s" "unmounted (abort s) = unmounted s"
  "length (requests (abort s)) = length (requests s)"
  "shown (abort s) = shown s" "cur_space (abort s) = cur_space s" "deps (abort s) = deps s"
  "fresh_dep (abort s) = fresh_dep s"
  by (simp_all add: abort_def split: option.splits)

lemma abort_aborted:
  "k < length (requests s) \<Longrightarrow>
     aborted (requests (abort s) ! k) = (controller s = Some k \<or> aborted (requests s ! k))"
proof (cases "controller s")
  case None
  then show ?thesis by (simp add: abort_def)
next
  case (Some j)
  assume k: "k < length (requests s)"
  show ?thesis
  proof (cases "j = k")
    case True
    with Some k show ?thesis by (simp add: abort_def)
  next
    case False
    with Some k show ?thesis by (simp add: abort_def)
  qed
qed

lemma inv_run_effects: "lifecycle_inv s \<Longrightarrow> \<not> unmounted s \<Longrightarrow> lifecycle_inv (run_effects rt s)"
  by (auto simp: lifecycle_inv_iff run_effects_def Let_def abort_aborted nth_append less_Suc_eq)

lemma inv_flush: "lifecycle_inv s \<Longrightarrow> lifecycle_inv (flush rt s)"
  by (simp add: flush_def inv_run_effects)

lemma flush_unmounted [simp]: "unmounted s \<Longrightarrow> flush rt s = s"
  by (simp add: flush_def)

lemma flush_length: "length (requests s) \<le> length (requests (flush rt s))"
  by (simp add: flush_def run_effects_def Let_def)

lemma flush_deps: "\<not> unmounted s \<Longrightarrow> deps (flush rt s) = Some (field (cur_space s) ''_id'')"
  by (simp add: flush_def run_effects_def Let_def)

lemma flush_changed:
  "\<not> unmounted s \<Longrightarrow> fresh_dep s \<or> deps s \<noteq> Some (field (cur_space s) ''_id'') \<Longrightarrow>
     controller (flush rt s) = None \<or> controller (flush rt s) = Some (length (requests s))"
  by (auto simp: flush_def run_effects_def Let_def)

text \<open>
  A render that changes the dependency, followed by the run of its effects, leaves a
  controller that is none of the earlier requests.
\<close>

lemma rerun_controller:
  assumes i: "lifecycle_inv s" and m: "\<not> unmounted s"
    and c: "f \<or> field sp ''_id'' \<noteq> field (cur_space s) ''_id''"
    and k: "k < length (requests s)"
  shows "controller (flush rt ((flush rt s)\<lparr>cur_space := sp, fresh_dep := f\<rparr>)) \<noteq> Some k"
proof -
  let ?s0 = "flush rt s"
  let ?s1 = "?s0\<lparr>cur_space := sp, fresh_dep := f\<rparr>"
  have i0: "lifecycle_inv ?s0" using i by (rule inv_flush)
  show ?thesis
  proof (cases "unmounted ?s0")
    case True
    then have "controller ?s0 = None" using i0 by (auto simp: lifecycle_inv_iff)
    with True show ?thesis by simp
  next
    case False
    have "fresh_dep ?s1 \<or> deps ?s1 \<noteq> Some (field (cur_space ?s1) ''_id'')"
      using flush_deps [OF m, of rt] c by auto
    then have "controller (flush rt ?s1) = None \<or> controller (flush rt ?s1) = Some (length (requests ?s1))"
      using False by (intro flush_changed) simp_all
    then show ?thesis using k flush_length [of s rt] by auto
  qed
qed

lemma inv_settle: "lifecycle_inv s \<Longrightarrow> lifecycle_inv (settle s k h)"
  by (auto simp: lifecycle_inv_iff settle_def Let_def nth_list_update)

lemma inv_step: "lifecycle_inv s \<Longrightarrow> lifecycle_inv (step rt s e)"
proof (cases e)
  case (Render sp)
  assume i: "lifecycle_inv s"
  have "lifecycle_inv (flush rt s)" using i by (rule inv_flush)
  then have "lifecycle_inv ((flush rt s)\<lparr>cur_space := sp, fresh_dep := False\<rparr>)"
    by (simp add: lifecycle_inv_iff)
  with i Render show ?thesis by simp
next
  case (RenderFresh sp)
  assume i: "lifecycle_inv s"
  have "lifecycle_inv (flush rt s)" using i by (rule inv_flush)
  then have "lifecycle_inv ((flush rt s)\<lparr>cur_space := sp, fresh_dep := is_reference (field sp ''_id'')\<rparr>)"
    by (simp add: lifecycle_inv_iff)
  with i RenderFresh show ?thesis by simp
next
  case Flush
  assume "lifecycle_inv s"
  with Flush show ?thesis by (simp add: inv_flush)
next
  case (Resolve k d)
  assume "lifecycle_inv s"
  with Resolve show ?thesis by (simp add: inv_settle)
next
  case (Reject k)
  assume "lifecycle_inv s"
  with Reject show ?thesis by (simp add: inv_settle)
next
  case Unmount
  assume i: "lifecycle_inv s"
  have "lifecycle_inv (flush rt s)" using i by (rule inv_flush)
  then have "lifecycle_inv ((abort (flush rt s))\<lparr>controller := None, unmounted := True\<rparr>)"
    by (auto simp: lifecycle_inv_iff abort_aborted)
  with i Unmount show ?thesis by simp
qed

lemma inv_run: "lifecycle_inv s \<Longrightarrow> lifecycle_inv (run rt s es)"
  unfolding run_def by (induction es arbitrary: s) (simp_all add: inv_step)

lemma settle_aborted:
  "k < length (requests s) \<longrightarrow> aborted (requests s ! k) \<Longrightarrow> shown (settle s k h) = shown s"
  by (simp add: settle_def Let_def)

text \<open>
  Claim C1. Let \<open>s\<close> be the state after any sequence of renders, effect runs, responses,
  failures and teardown, starting from the mount. A response or a failure of a request other
  than the one issued by the latest effect run leaves the visible average, count and review
  list as they are. A render with a different identifier followed by the run of its effects
  aborts the request that was in flight, so does a render whose identifier is a new object
  (also one with the same content), and so does the teardown, after which no controller is
  left. Between a render and the run of its effects the previous request is still the
  current one; the statement is about the time from the effect run on, when the fetch for
  the new selection is issued.
\<close>

theorem stale_completion_discarded:
  assumes "s = run rt (mount rt space) es"
  shows "(\<forall>k d. controller s \<noteq> Some k \<longrightarrow>
            shown (step rt s (Resolve k d)) = shown s \<and> shown (step rt s (Reject k)) = shown s)
       \<and> (\<forall>k sp. controller s = Some k \<and> field sp ''_id'' \<noteq> field (cur_space s) ''_id'' \<longrightarrow>
            aborted (requests (run rt s [Render sp, Flush]) ! k)
            \<and> controller (run rt s [Render sp, Flush]) \<noteq> Some k)
       \<and> (\<forall>k sp. controller s = Some k
              \<and> (is_reference (field sp ''_id'') \<or> field sp ''_id'' \<noteq> field (cur_space s) ''_id'') \<longrightarrow>
            aborted (requests (run rt s [RenderFresh sp, Flush]) ! k)
            \<and> controller (run rt s [RenderFresh sp, Flush]) \<noteq> Some k)
       \<and> (\<forall>k < length (requests s). aborted (requests (step rt s Unmount) ! k))
       \<and> controller (step rt s Unmount) = None"
proof -
  have i: "lifecycle_inv s" using assms by (simp add: inv_run inv_mount)
  have a: "shown (step rt s (Resolve k d)) = shown s \<and> shown (step rt s (Reject k)) = shown s"
    if "controller s \<noteq> Some k" for k d
    using i that by (simp add: settle_aborted lifecycle_inv_iff)
  have b: "aborted (requests (run rt s [Render sp, Flush]) ! k)
            \<and> controller (run rt s [Render sp, Flush]) \<noteq> Some k"
    if "controller s = Some k" and "field sp ''_id'' \<noteq> field (cur_space s) ''_id''" for k sp
  proof -
    let ?s2 = "flush rt ((flush rt s)\<lparr>cur_space := sp, fresh_dep := False\<rparr>)"
    have k: "k < length (requests s)" and m: "\<not> unmounted s"
      using i that by (auto simp: lifecycle_inv_iff)
    have r: "run rt s [Render sp, Flush] = ?s2" using m by (simp add: run_def)
    have "lifecycle_inv (run rt s [Render sp, Flush])" using i by (rule inv_run)
    then have i2: "lifecycle_inv ?s2" by (simp only: r)
    have len: "length (requests s) \<le> length (requests ?s2)"
      using flush_length [of s rt]
        flush_length [of "(flush rt s)\<lparr>cur_space := sp, fresh_dep := False\<rparr>" rt] by simp
    have ne: "controller ?s2 \<noteq> Some k"
      using i m _ k by (rule rerun_controller) (use that in simp)
    have "aborted (requests ?s2 ! k)" using i2 ne k len by (simp add: lifecycle_inv_iff)
    with ne show ?thesis by (simp only: r) simp
  qed
  have b': "aborted (requests (run rt s [RenderFresh sp, Flush]) ! k)
            \<and> controller (run rt s [RenderFresh sp, Flush]) \<noteq> Some k"
    if "controller s = Some k"
      and "is_reference (field sp ''_id'') \<or> field sp ''_id'' \<noteq> field (cur_space s) ''_id''" for k sp
  proof -
    let ?f = "is_reference (field sp ''_id'')"
    let ?s2 = "flush rt ((flush rt s)\<lparr>cur_space := sp, fresh_dep := ?f\<rparr>)"
    have k: "k < length (requests s)" and m: "\<not> unmounted s"
      using i that by (auto simp: lifecycle_inv_iff)
    have r: "run rt s [RenderFresh sp, Flush] = ?s2" using m by (simp add: run_def)
    have "lifecycle_inv (run rt s [RenderFresh sp, Flush])" using i by (rule inv_run)
    then have i2: "lifecycle_inv ?s2" by (simp only: r)
    have len: "length (requests s) \<le> length (requests ?s2)"
      using flush_length [of s rt]
        flush_length [of "(flush rt s)\<lparr>cur_space := sp, fresh_dep := ?f\<rparr>" rt] by simp
    have ne: "controller ?s2 \<noteq> Some k"
      using i m that(2) k by (rule rerun_controller)
    have "aborted (requests ?s2 ! k)" using i2 ne k len by (simp add: lifecycle_inv_iff)
    with ne show ?thesis by (simp only: r) simp
  qed
  have iu: "lifecycle_inv (step rt s Unmount)" using i by (rule inv_step)
  have cu: "controller (step rt s Unmount) = None"
    using i by (auto simp: lifecycle_inv_iff split: option.splits)
  have lu: "length (requests s) \<le> length (requests (step rt s Unmount))"
    using flush_length [of s rt] by simp
  have c: "aborted (requests (step rt s Unmount) ! k)" if "k < length (requests s)" for k
    using iu cu lu that by (simp add: lifecycle_inv_iff del: step.simps)
  from a b b' c cu show ?thesis by blast
qed

text \<open>
  The theorem on the selection of space A followed by space B: the response and the failure
  of A's request leave B's fallback (rating 4, no reviews) on display, A's request is
  aborted by the change and by a teardown, and the response to B's own request is shown.
  For the space whose identifier is an object, a render with a new object of the same
  content aborts the request, and a render with the same object leaves it in flight.
\<close>

lemma run_A_B:
  "run sample_runtime (mount sample_runtime space_A) [Flush, Render space_B, Flush]
     = \<lparr> cur_space = space_B, fresh_dep = False, deps = Some (JStr ''B''),
         shown = \<lparr> ratingAvg = Fin 4, ratingCount = Fin 0, reviews = [] \<rparr>,
         requests = [\<lparr> req_space = space_A, aborted = True, settled = False \<rparr>,
                     \<lparr> req_space = space_B, aborted = False, settled = False \<rparr>],
         controller = Some 1, unmounted = False \<rparr>"
  by (simp add: run_def mount_def flush_def run_effects_def abort_def fallback_def cached_rating_def
      Let_def space_A_def space_B_def field_def coalesce_def)

lemma run_A:
  "run sample_runtime (mount sample_runtime space_A) [Flush]
     = \<lparr> cur_space = space_A, fresh_dep = False, deps = Some (JStr ''A''),
         shown = \<lparr> ratingAvg = Fin 3, ratingCount = Fin 0, reviews = [] \<rparr>,
         requests = [\<lparr> req_space = space_A, aborted = False, settled = False \<rparr>],
         controller = Some 0, unmounted = False \<rparr>"
  by (simp add: run_def mount_def flush_def run_effects_def abort_def fallback_def cached_rating_def
      Let_def space_A_def field_def coalesce_def)

lemma run_O:
  "run sample_runtime (mount sample_runtime space_O) [Flush]
     = \<lparr> cur_space = space_O, fresh_dep = False, deps = Some (JObj [(''$oid'', JStr ''A'')]),
         shown = \<lparr> ratingAvg = Fin 3, ratingCount = Fin 0, reviews = [] \<rparr>,
         requests = [\<lparr> req_space = space_O, aborted = False, settled = False \<rparr>],
         controller = Some 0, unmounted = False \<rparr>"
  by (simp add: run_def mount_def flush_def run_effects_def abort_def fallback_def cached_rating_def
      Let_def space_O_def field_def coalesce_def)

theorem stale_completion_discarded_witness:
  "shown (run sample_runtime (mount sample_runtime space_A)
            [Flush, Render space_B, Flush, Resolve 0 (JArr [JObj [(''score'', JNum (Fin 5))]])])
     = \<lparr> ratingAvg = Fin 4, ratingCount = Fin 0, reviews = [] \<rparr>
   \<and> shown (run sample_runtime (mount sample_runtime space_A) [Flush, Render space_B, Flush, Reject 0])
     = \<lparr> ratingAvg = Fin 4, ratingCount = Fin 0, reviews = [] \<rparr>
   \<and> aborted (requests (run sample_runtime (mount sample_runtime space_A)
                          [Flush, Render space_B, Flush]) ! 0)
   \<and> aborted (requests (run sample_runtime (mount sample_runtime space_A) [Flush, Unmount]) ! 0)
   \<and> ratingAvg (shown (run sample_runtime (mount sample_runtime space_A)
            [Flush, Render space_B, Flush, Resolve 1 (JArr [JObj [(''score'', JNum (Fin 5))]])]))
     = Fin 5
   \<and> aborted (requests (run sample_runtime (mount sample_runtime space_O)
                          [Flush, RenderFresh space_O, Flush]) ! 0)
   \<and> \<not> aborted (requests (run sample_runtime (mount sample_runtime space_O)
                            [Flush, Render space_O, Flush]) ! 0)"
proof -
  let ?d = "JArr [JObj [(''score'', JNum (Fin 5))]]"
  let ?s1 = "run sample_runtime (mount sample_runtime space_A) [Flush]"
  let ?s2 = "run sample_runtime (mount sample_runtime space_A) [Flush, Render space_B, Flush]"
  have ids: "field space_B ''_id'' \<noteq> field space_A ''_id''"
    by (simp add: space_A_def space_B_def field_def)
  have app: "run rt (run rt s es) fs = run rt s (es @ fs)" for rt s es fs
    by (simp add: run_def)
  have t2: "\<forall>k d. controller ?s2 \<noteq> Some k \<longrightarrow>
            shown (step sample_runtime ?s2 (Resolve k d)) = shown ?s2
            \<and> shown (step sample_runtime ?s2 (Reject k)) = shown ?s2"
    using stale_completion_discarded [OF refl, of sample_runtime space_A "[Flush, Render space_B, Flush]"]
    by blast
  have c2: "controller ?s2 \<noteq> Some 0" by (simp add: run_A_B)
  have sh: "shown ?s2 = \<lparr> ratingAvg = Fin 4, ratingCount = Fin 0, reviews = [] \<rparr>"
    by (simp add: run_A_B)
  have a: "shown (run sample_runtime (mount sample_runtime space_A) [Flush, Render space_B, Flush, Resolve 0 ?d])
     = \<lparr> ratingAvg = Fin 4, ratingCount = Fin 0, reviews = [] \<rparr>"
    using t2 c2 sh app [of sample_runtime "mount sample_runtime space_A" "[Flush, Render space_B, Flush]" "[Resolve 0 ?d]", symmetric]
    by (simp add: run_def)
  have b: "shown (run sample_runtime (mount sample_runtime space_A) [Flush, Render space_B, Flush, Reject 0])
     = \<lparr> ratingAvg = Fin 4, ratingCount = Fin 0, reviews = [] \<rparr>"
    using t2 c2 sh by (simp add: run_def)
  have t1: "(\<forall>k sp. controller ?s1 = Some k \<and> field sp ''_id'' \<noteq> field (cur_space ?s1) ''_id'' \<longrightarrow>
            aborted (requests (run sample_runtime ?s1 [Render sp, Flush]) ! k))
         \<and> (\<forall>k < length (requests ?s1). aborted (requests (step sample_runtime ?s1 Unmount) ! k))"
    using stale_completion_discarded [OF refl, of sample_runtime space_A "[Flush]"] by blast
  have c: "aborted (requests ?s2 ! 0)"
  proof -
    have "controller ?s1 = Some 0 \<and> field space_B ''_id'' \<noteq> field (cur_space ?s1) ''_id''"
      using ids by (simp add: run_A)
    with t1 have "aborted (requests (run sample_runtime ?s1 [Render space_B, Flush]) ! 0)" by blast
    then show ?thesis by (simp add: app)
  qed
  have d: "aborted (requests (run sample_runtime (mount sample_runtime space_A) [Flush, Unmount]) ! 0)"
  proof -
    have "0 < length (requests ?s1)" by (simp add: run_A)
    with t1 have "aborted (requests (step sample_runtime ?s1 Unmount) ! 0)" by blast
    then show ?thesis by (simp add: run_def)
  qed
  have e: "ratingAvg (shown (run sample_runtime (mount sample_runtime space_A)
            [Flush, Render space_B, Flush, Resolve 1 ?d])) = Fin 5"
  proof -
    have "run sample_runtime (mount sample_runtime space_A) [Flush, Render space_B, Flush, Resolve 1 ?d]
        = step sample_runtime ?s2 (Resolve 1 ?d)"
      by (simp add: run_def)
    then show ?thesis
      by (simp add: run_A_B settle_def Let_def on_response_def try_body_def summarize_def stats_used_def
          ratingsArray_def field_def member_strict_def Number_of_def num_or_zero_def
          normalize_review_def js_or_def)
  qed
  let ?s3 = "run sample_runtime (mount sample_runtime space_O) [Flush]"
  have t3: "\<forall>k sp. controller ?s3 = Some k
              \<and> (is_reference (field sp ''_id'') \<or> field sp ''_id'' \<noteq> field (cur_space ?s3) ''_id'') \<longrightarrow>
            aborted (requests (run sample_runtime ?s3 [RenderFresh sp, Flush]) ! k)"
    using stale_completion_discarded [OF refl, of sample_runtime space_O "[Flush]"] by blast
  have f: "aborted (requests (run sample_runtime (mount sample_runtime space_O)
                          [Flush, RenderFresh space_O, Flush]) ! 0)"
  proof -
    have "controller ?s3 = Some 0 \<and> is_reference (field space_O ''_id'')"
      by (simp add: run_O) (simp add: space_O_def field_def is_reference_def)
    with t3 have "aborted (requests (run sample_runtime ?s3 [RenderFresh space_O, Flush]) ! 0)" by blast
    then show ?thesis by (simp add: app)
  qed
  have g: "\<not> aborted (requests (run sample_runtime (mount sample_runtime space_O)
                            [Flush, Render space_O, Flush]) ! 0)"
  proof -
    have "run sample_runtime (mount sample_runtime space_O) [Flush, Render space_O, Flush]
        = run sample_runtime ?s3 [Render space_O, Flush]"
      by (simp add: app)
    also have "\<dots> = ?s3"
      by (simp add: run_O) (simp add: run_def flush_def space_O_def field_def)
    finally show ?thesis by (simp add: run_O)
  qed
  from a b c d e f g show ?thesis by blast
qed

section \<open>Properties of the booking gate\<close>

text \<open>
  Claim C2. A click on the booking button is decided by the first of these that applies. No
  user: a notice and the redirect to the login page. A user whose \<^verbatim>\<open>isVerified\<close> is not true
  (false or absent): the verification notice alone. A verified user while the context
  user's \<^verbatim>\<open>phoneVerified\<close> is the boolean false: the phone dialog is opened. Otherwise: one
  navigation to the booking flow carrying \<^verbatim>\<open>spaceId\<close>, \<^verbatim>\<open>userId\<close>, \<^verbatim>\<open>startTime\<close>, \<^verbatim>\<open>endTime\<close>,
  \<^verbatim>\<open>totalAmount\<close>, \<^verbatim>\<open>perHour\<close> and \<^verbatim>\<open>durationHours\<close>, and then the popup is closed. The
  number of handoffs is one in the last case and zero in the others, and the three blocked
  outcomes differ from one another.
\<close>

theorem booking_gate:
  "(usr = None \<longrightarrow>
      handleBookNow rt space usr authUser start end' MouseEvent
        = [StopPropagation, ToastInfo ''Please log in to book the parking space.'', Navigate ''/login'' None])
   \<and> (\<forall>u. usr = Some u \<and> isVerified u \<noteq> Some True \<longrightarrow>
      handleBookNow rt space usr authUser start end' MouseEvent
        = [StopPropagation, ToastInfo ''Your account is not verified. Please complete your KYC to book.''])
   \<and> (\<forall>u. usr = Some u \<and> isVerified u = Some True \<and> member authUser ''phoneVerified'' = JBool False \<longrightarrow>
      handleBookNow rt space usr authUser start end' MouseEvent = [StopPropagation, SetShowPhoneModal True])
   \<and> (\<forall>u. usr = Some u \<and> isVerified u = Some True \<and> member authUser ''phoneVerified'' \<noteq> JBool False \<longrightarrow>
      handleBookNow rt space usr authUser start end' MouseEvent
        = [StopPropagation,
           Navigate ''/vehicle-details''
             (Some \<lparr> spaceId = sid rt space, userId = uid u, startTime = start, endTime = end',
                     totalAmount = totalAmount_of rt space (computeDurationHours rt start end'),
                     perHour = perHour_of rt space,
                     durationHours = computeDurationHours rt start end' \<rparr>),
           OnClose])
   \<and> length (handoffs (handleBookNow rt space usr authUser start end' MouseEvent)) =
       (if \<exists>u. usr = Some u \<and> isVerified u = Some True \<and> member authUser ''phoneVerified'' \<noteq> JBool False
        then 1 else 0)
   \<and> distinct
       [[StopPropagation, ToastInfo ''Please log in to book the parking space.'', Navigate ''/login'' None],
        [StopPropagation, ToastInfo ''Your account is not verified. Please complete your KYC to book.''],
        [StopPropagation, SetShowPhoneModal True]]"
  by (cases usr) (auto simp: handleBookNow_def stopPropagation_def handoff_def)

text \<open>The theorem at one booking attempt for each of the four outcomes.\<close>

lemma sample_sid: "sid sample_runtime space_A = JStr ''A''"
  by (simp add: sid_def space_A_def field_def js_or_def js_string_def Let_def)

lemma price_space_A:
  "computeDiscountedPrice rt space_A
     = \<lparr> basePrice = Fin 100, discountPercent = 0, discountedPrice = Fin 100, hasDiscount = False \<rparr>"
  by (simp add: computeDiscountedPrice_def Let_def base_def clamped_def discountNum_def
      rawDiscount_def space_A_def field_def coalesce_def num_or_zero_def js_sub_def toFixed2_def)

lemma sample_perHour: "perHour_of sample_runtime space_A = JNum (Fin 100)"
proof -
  have "nullish (field space_A ''__price'')" by (simp add: space_A_def field_def)
  then show ?thesis
    by (simp add: perHour_of_def priceMeta_def breakdown_obj_def price_space_A field_def)
qed

lemma hours_9000000: "rounded (rounded (rounded 9000000 / 60000) / 60) = 5 / 2"
proof -
  have a: "rounded 9000000 = 9000000" by (rule rounded_numeral) simp
  have b: "rounded 150 = 150" by (rule rounded_numeral) simp
  have c: "rounded (5 / 2) = 5 / 2" using rounded_exact [of "5 / 2" 5 "- 1"] by simp
  have s1: "rounded 9000000 / 60000 = (150::real)" unfolding a by simp
  have s2: "rounded 150 / 60 = (5 / 2 :: real)" unfolding b by simp
  show ?thesis unfolding s1 s2 by (rule c)
qed

lemma sample_duration:
  "computeDurationHours sample_runtime (Some ''2024-01-01T10:00:00Z'') (Some ''2024-01-01T12:30:00Z'')
     = Some (5 / 2)"
  by (simp add: computeDurationHours_def sample_runtime_def hours_9000000)

lemma sample_total:
  "totalAmount_of sample_runtime space_A (Some (5 / 2)) = JNum (Fin 250)"
  by (simp add: totalAmount_of_def sample_perHour toFixed2_def)

theorem booking_gate_witness:
  "handleBookNow sample_runtime space_A (None :: user option)
      (JObj [(''phoneVerified'', JBool True)]) None None MouseEvent
     = [StopPropagation, ToastInfo ''Please log in to book the parking space.'', Navigate ''/login'' None]
   \<and> handleBookNow sample_runtime space_A (Some (sample_user\<lparr> isVerified := Some False \<rparr>))
      (JObj [(''phoneVerified'', JBool True)]) None None MouseEvent
     = [StopPropagation, ToastInfo ''Your account is not verified. Please complete your KYC to book.'']
   \<and> handleBookNow sample_runtime space_A (Some sample_user)
      (JObj [(''phoneVerified'', JBool False)]) None None MouseEvent
     = [StopPropagation, SetShowPhoneModal True]
   \<and> handleBookNow sample_runtime space_A (Some sample_user) (JObj [])
      (Some ''2024-01-01T10:00:00Z'') (Some ''2024-01-01T12:30:00Z'') MouseEvent
     = [StopPropagation,
        Navigate ''/vehicle-details''
          (Some \<lparr> spaceId = JStr ''A'', userId = Some ''u1'',
                  startTime = Some ''2024-01-01T10:00:00Z'', endTime = Some ''2024-01-01T12:30:00Z'',
                  totalAmount = JNum (Fin 250), perHour = JNum (Fin 100),
                  durationHours = Some (5 / 2) \<rparr>),
        OnClose]"
proof -
  have u: "uid sample_user = Some ''u1''" by (simp add: uid_def sample_user_def)
  have v: "isVerified sample_user = Some True" by (simp add: sample_user_def)
  note g = booking_gate [where rt = sample_runtime and space = space_A]
  have a: "handleBookNow sample_runtime space_A (None :: user option)
      (JObj [(''phoneVerified'', JBool True)]) None None MouseEvent
     = [StopPropagation, ToastInfo ''Please log in to book the parking space.'', Navigate ''/login'' None]"
    using g [of "None :: user option"] by simp
  have b: "handleBookNow sample_runtime space_A (Some (sample_user\<lparr> isVerified := Some False \<rparr>))
      (JObj [(''phoneVerified'', JBool True)]) None None MouseEvent
     = [StopPropagation, ToastInfo ''Your account is not verified. Please complete your KYC to book.'']"
    using g [of "Some (sample_user\<lparr> isVerified := Some False \<rparr>)"] by simp
  have c: "handleBookNow sample_runtime space_A (Some sample_user)
      (JObj [(''phoneVerified'', JBool False)]) None None MouseEvent
     = [StopPropagation, SetShowPhoneModal True]"
    using g [of "Some sample_user" "JObj [(''phoneVerified'', JBool False)]"] v
    by (simp add: field_def)
  have d: "handleBookNow sample_runtime space_A (Some sample_user) (JObj [])
      (Some ''2024-01-01T10:00:00Z'') (Some ''2024-01-01T12:30:00Z'') MouseEvent
     = [StopPropagation,
        Navigate ''/vehicle-details''
          (Some \<lparr> spaceId = JStr ''A'', userId = Some ''u1'',
                  startTime = Some ''2024-01-01T10:00:00Z'', endTime = Some ''2024-01-01T12:30:00Z'',
                  totalAmount = JNum (Fin 250), perHour = JNum (Fin 100),
                  durationHours = Some (5 / 2) \<rparr>),
        OnClose]"
    using g [of "Some sample_user" "JObj []" "Some ''2024-01-01T10:00:00Z''" "Some ''2024-01-01T12:30:00Z''"]
      u v sample_sid sample_perHour sample_duration sample_total
    by (simp add: field_def)
  from a b c d show ?thesis by simp
qed




lemma uid_more: "uid (u\<lparr> phoneVerified := a \<rparr>) = uid u"
  by (simp add: uid_def split: option.split)

text \<open>
  Claim C10. Two booking attempts that differ only in the \<^verbatim>\<open>phoneVerified\<close> field of the user
  passed as the prop have the same effects, whatever the two values are; the flag that
  decides is the one of the context user, where false and true lead to different effects
  for the verified sample user.
\<close>

theorem gate_reads_context_phone_flag:
  "handleBookNow rt space (Some (u\<lparr> phoneVerified := a \<rparr>)) authUser start end' e
     = handleBookNow rt space (Some (u\<lparr> phoneVerified := b \<rparr>)) authUser start end' e
   \<and> handleBookNow rt space (Some (sample_user\<lparr> user.more := x \<rparr>)) (JObj [(''phoneVerified'', JBool False)]) start end' e
      \<noteq> handleBookNow rt space (Some (sample_user\<lparr> user.more := x \<rparr>)) (JObj [(''phoneVerified'', JBool True)]) start end' e"
  by (simp add: handleBookNow_def handoff_def uid_more sample_user_def field_def)

section \<open>Properties of the response normalisation\<close>

lemma num_or_zero_cases: "num_or_zero n = (case n of NaN \<Rightarrow> Fin 0 | m \<Rightarrow> m)"
  by (cases n) (simp_all add: num_or_zero_def)

lemma unconvertible_truthy: "unconvertible v \<Longrightarrow> truthy v"
  by (cases v) simp_all

lemma unconvertible_coalesce [simp]: "unconvertible (coalesce a (JNum n)) = unconvertible a"
  by (cases a) (simp_all add: coalesce_def)

lemma unconvertible_js_or [simp]: "unconvertible (js_or a (JNum n)) = unconvertible a"
  using unconvertible_truthy [of a] by (auto simp: js_or_def)

lemma Number_of_cases:
  "Number_of rt v = (if unconvertible v then Inl TypeError else Inr (ToNumber rt v))"
  by (simp add: Number_of_def)

text \<open>The sum of the scores: when it returns, and what.\<close>

lemma score_sum_total:
  "list_all (\<lambda>r. \<not> (nullish r \<or> unconvertible (member r ''score''))) rs \<Longrightarrow>
     score_sum rt acc rs = Inr (foldl js_add acc (map (score_value rt) rs))"
  by (induction rs arbitrary: acc)
    (simp_all add: member_strict_def Number_of_def score_value_def num_or_zero_cases)

lemma score_sum_throws:
  "list_ex (\<lambda>r. nullish r \<or> unconvertible (member r ''score'')) rs \<Longrightarrow>
     \<exists>e. score_sum rt acc rs = Inl e"
  by (induction rs arbitrary: acc) (auto simp: member_strict_def Number_of_def)

text \<open>The mapping of the records: when it returns, and what.\<close>

lemma normalize_review_cases:
  "normalize_review rt r =
     (if nullish r \<or> unconvertible (member r ''score'') then Inl TypeError
      else Inr \<lparr> rev_id = member r ''_id'',
                 score = ToNumber rt (js_or (member r ''score'') (JNum (Fin 0))),
                 comment = js_or (member r ''comment'') (JStr []),
                 fromUser = author_of (member r ''fromUser''),
                 createdAt = member r ''createdAt'' \<rparr>)"
  by (simp add: normalize_review_def Number_of_def)

lemma map_throwing_total:
  "list_all (\<lambda>r. \<not> (nullish r \<or> unconvertible (member r ''score''))) rs \<Longrightarrow>
     \<exists>ns. map_throwing (normalize_review rt) rs = Inr ns \<and> length ns = length rs
        \<and> map createdAt ns = map (\<lambda>r. member r ''createdAt'') rs"
  by (induction rs) (auto simp: normalize_review_cases)

lemma map_throwing_throws:
  "list_ex (\<lambda>r. nullish r \<or> unconvertible (member r ''score'')) rs \<Longrightarrow>
     \<exists>e. map_throwing (normalize_review rt) rs = Inl e"
  by (induction rs) (auto simp: normalize_review_cases split: sum.splits)

text \<open>The sort: when it returns.\<close>

lemma review_time_cases:
  "review_time rt a =
     (if unconvertible (createdAt a) then Inl TypeError
      else Inr (if truthy (createdAt a)
                then (case DateTime rt (createdAt a) of None \<Rightarrow> NaN | Some ms \<Rightarrow> Fin (real_of_int ms))
                else Fin 0))"
  using unconvertible_truthy [of "createdAt a"]
  by (auto simp: review_time_def Date_getTime_def split: option.splits)

lemma newer_first_throws:
  "(\<exists>e. newer_first rt a b = Inl e) \<longleftrightarrow> unconvertible (createdAt a) \<or> unconvertible (createdAt b)"
  by (simp add: newer_first_def review_time_cases)

lemma newer_first_returns:
  "\<not> unconvertible (createdAt a) \<Longrightarrow> \<not> unconvertible (createdAt b) \<Longrightarrow>
     \<exists>c. newer_first rt a b = Inr c"
  by (simp add: newer_first_def review_time_cases)

lemma insert_by_total:
  "\<not> unconvertible (createdAt x) \<Longrightarrow> list_all (\<lambda>y. \<not> unconvertible (createdAt y)) ys \<Longrightarrow>
     \<exists>zs. insert_by (newer_first rt) x ys = Inr zs
        \<and> list_all (\<lambda>y. \<not> unconvertible (createdAt y)) zs \<and> length zs = Suc (length ys)"
proof (induction ys)
  case Nil
  then show ?case by simp
next
  case (Cons y ys)
  then obtain c where c: "newer_first rt x y = Inr c"
    using newer_first_returns [of x y rt] by auto
  from Cons obtain zs where "insert_by (newer_first rt) x ys = Inr zs"
      "list_all (\<lambda>y. \<not> unconvertible (createdAt y)) zs" "length zs = Suc (length ys)"
    by auto
  with c Cons.prems show ?case by simp
qed

lemma sort_by_total:
  "list_all (\<lambda>y. \<not> unconvertible (createdAt y)) xs \<Longrightarrow>
     \<exists>ys. sort_by (newer_first rt) xs = Inr ys
        \<and> list_all (\<lambda>y. \<not> unconvertible (createdAt y)) ys \<and> length ys = length xs"
proof (induction xs)
  case Nil
  then show ?case by simp
next
  case (Cons x xs)
  then obtain ys where ys: "sort_by (newer_first rt) xs = Inr ys"
      "list_all (\<lambda>y. \<not> unconvertible (createdAt y)) ys" "length ys = length xs"
    by auto
  from Cons.prems have "\<not> unconvertible (createdAt x)" by simp
  from insert_by_total [OF this ys(2), of rt] ys(1,3) show ?case by auto
qed

lemma insert_by_length: "insert_by cmp x ys = Inr zs \<Longrightarrow> length zs = Suc (length ys)"
  by (induction ys arbitrary: zs) (auto split: sum.splits if_splits)

lemma sort_by_length: "sort_by cmp xs = Inr ys \<Longrightarrow> length ys = length xs"
  by (induction xs arbitrary: ys) (auto split: sum.splits dest: insert_by_length)

lemma sort_by_throws:
  "2 \<le> length xs \<Longrightarrow> list_ex (\<lambda>y. unconvertible (createdAt y)) xs \<Longrightarrow>
     \<exists>e. sort_by (newer_first rt) xs = Inl e"
proof (induction xs)
  case Nil
  then show ?case by simp
next
  case (Cons x xs)
  note IH = Cons.IH and prems = Cons.prems
  show ?case
  proof (cases "sort_by (newer_first rt) xs")
    case (Inl e)
    then show ?thesis by simp
  next
    case (Inr ys)
    from prems(1) have ne: "xs \<noteq> []" by auto
    from sort_by_length [OF Inr] ne obtain y ys' where ys: "ys = y # ys'" by (cases ys) auto
    show ?thesis
    proof (cases "2 \<le> length xs")
      case False
      from ne have "length xs \<noteq> 0" by simp
      with False have "length xs = 1" by arith
      then obtain z where xs: "xs = [z]" by (auto simp: length_Suc_conv)
      with Inr ys have yz: "y = z" by simp
      from prems(2) xs have "unconvertible (createdAt x) \<or> unconvertible (createdAt z)" by simp
      then obtain e where "newer_first rt x z = Inl e" using newer_first_throws [of rt x z] by blast
      with Inr ys yz show ?thesis by simp
    next
      case True
      have "\<not> list_ex (\<lambda>y. unconvertible (createdAt y)) xs"
        using IH [OF True] Inr by auto
      with prems(2) have bad: "unconvertible (createdAt x)" by simp
      then obtain e where "newer_first rt x y = Inl e" using newer_first_throws [of rt x y] by blast
      with Inr ys show ?thesis by simp
    qed
  qed
qed

lemma sort_by_single: "sort_by cmp [x] = Inr [x]"
  by simp

lemma summarize_cases:
  "summarize rt space data =
     (if stats_used data then
        (if unconvertible (member (member data ''stats'') ''avg'') \<or>
            unconvertible (member (member data ''stats'') ''count'')
         then Inl TypeError
         else Inr (ToNumber rt (coalesce (member (member data ''stats'') ''avg'') (JNum (Fin 0))),
                   ToNumber rt (coalesce (member (member data ''stats'') ''count'') (JNum (Fin 0)))))
      else if ratingsArray data \<noteq> [] then
        (case score_sum rt (Fin 0) (ratingsArray data) of
           Inl e \<Rightarrow> Inl e
         | Inr sm \<Rightarrow>
             Inr (js_div_pos sm (real (length (ratingsArray data))),
                  Fin (real (length (ratingsArray data)))))
      else Inr (cached_rating rt space, Fin 0))"
proof (cases "ratingsArray data = []")
  case True
  then show ?thesis by (simp add: summarize_def Number_of_def)
next
  case False
  then have "real (max 1 (length (ratingsArray data))) = real (length (ratingsArray data))"
    by (cases "ratingsArray data") simp_all
  with False show ?thesis by (simp add: summarize_def Number_of_def split: sum.split)
qed

lemma try_body_throws:
  assumes "response_throws data"
  shows "\<exists>e. try_body rt space data = Inl e"
proof -
  let ?arr = "ratingsArray data"
  show ?thesis
  proof (cases "list_ex (\<lambda>r. nullish r \<or> unconvertible (member r ''score'')) ?arr")
    case True
    then have ne: "0 < length ?arr" by (cases ?arr) simp_all
    from True obtain e where "map_throwing (normalize_review rt) ?arr = Inl e"
      using map_throwing_throws by blast
    with ne show ?thesis by (simp add: try_body_def split: sum.splits prod.splits)
  next
    case False
    then have good: "list_all (\<lambda>r. \<not> (nullish r \<or> unconvertible (member r ''score''))) ?arr"
      by (simp add: list_all_iff list_ex_iff)
    show ?thesis
    proof (cases "stats_used data \<and>
         (unconvertible (member (member data ''stats'') ''avg'') \<or>
          unconvertible (member (member data ''stats'') ''count''))")
      case True
      then show ?thesis by (simp add: try_body_def summarize_cases)
    next
      case nostats: False
      with assms False have two: "2 \<le> length ?arr"
        and bad: "list_ex (\<lambda>r. unconvertible (member r ''createdAt'')) ?arr"
        by (auto simp: response_throws_def)
      from two have ne: "0 < length ?arr" by auto
      obtain ns where ns: "map_throwing (normalize_review rt) ?arr = Inr ns" "length ns = length ?arr"
          "map createdAt ns = map (\<lambda>r. member r ''createdAt'') ?arr"
        using map_throwing_total [OF good] by blast
      have "list_ex unconvertible (map createdAt ns)" using bad by (simp add: ns(3) list_ex_iff)
      then have "list_ex (\<lambda>y. unconvertible (createdAt y)) ns" by (simp add: list_ex_iff)
      moreover have "2 \<le> length ns" using two ns(2) by simp
      ultimately obtain e where "sort_by (newer_first rt) ns = Inl e"
        using sort_by_throws by blast
      with ns(1) ne show ?thesis by (simp add: try_body_def split: sum.splits prod.splits)
    qed
  qed
qed

lemma try_body_returns:
  assumes "\<not> response_throws data"
  shows "\<exists>rs. try_body rt space data =
           Inr \<lparr> ratingAvg =
                   (if stats_used data
                    then ToNumber rt (coalesce (member (member data ''stats'') ''avg'') (JNum (Fin 0)))
                    else if ratingsArray data \<noteq> [] then mean_score rt (ratingsArray data)
                    else cached_rating rt space),
                 ratingCount =
                   (if stats_used data
                    then ToNumber rt (coalesce (member (member data ''stats'') ''count'') (JNum (Fin 0)))
                    else Fin (real (length (ratingsArray data)))),
                 reviews = rs \<rparr>
         \<and> length rs = length (ratingsArray data)"
proof -
  let ?arr = "ratingsArray data"
  from assms have good: "list_all (\<lambda>r. \<not> (nullish r \<or> unconvertible (member r ''score''))) ?arr"
    and stats: "stats_used data \<Longrightarrow>
         \<not> unconvertible (member (member data ''stats'') ''avg'') \<and>
         \<not> unconvertible (member (member data ''stats'') ''count'')"
    and dates: "2 \<le> length ?arr \<Longrightarrow> list_all (\<lambda>r. \<not> unconvertible (member r ''createdAt'')) ?arr"
    by (auto simp: response_throws_def list_all_iff list_ex_iff)
  have sm: "score_sum rt (Fin 0) ?arr = Inr (foldl js_add (Fin 0) (map (score_value rt) ?arr))"
    using good by (rule score_sum_total)
  obtain ns where ns: "map_throwing (normalize_review rt) ?arr = Inr ns" "length ns = length ?arr"
      "map createdAt ns = map (\<lambda>r. member r ''createdAt'') ?arr"
    using map_throwing_total [OF good] by blast
  have "\<exists>rs. sort_by (newer_first rt) ns = Inr rs \<and> length rs = length ns"
  proof (cases "2 \<le> length ?arr")
    case True
    then have "list_all (\<lambda>u. \<not> unconvertible u) (map (\<lambda>r. member r ''createdAt'') ?arr)"
      using dates by (simp add: list_all_iff)
    then have "list_all (\<lambda>u. \<not> unconvertible u) (map createdAt ns)" by (simp only: ns(3))
    then have "list_all (\<lambda>y. \<not> unconvertible (createdAt y)) ns" by (simp add: list_all_iff)
    then show ?thesis using sort_by_total by blast
  next
    case False
    then have "length ns \<le> 1" using ns(2) by simp
    then have "ns = [] \<or> (\<exists>n. ns = [n])" by (cases ns) auto
    then show ?thesis by auto
  qed
  then obtain rs where rs: "sort_by (newer_first rt) ns = Inr rs" "length rs = length ns" by blast
  show ?thesis
  proof (cases "?arr = []")
    case True
    then show ?thesis using stats by (simp add: try_body_def summarize_cases)
  next
    case False
    then show ?thesis using stats sm ns rs
      by (simp add: try_body_def summarize_cases mean_score_def)
  qed
qed

text \<open>
  Claim C5, as the code has it. The collection is the response itself when it is an array,
  the \<^verbatim>\<open>ratings\<close> of an object when that is an array, and empty for every other shape. The
  \<^verbatim>\<open>try\<close> block of the handler throws exactly on the responses described by
  \<open>response_throws\<close>, and for these the \<^verbatim>\<open>catch\<close> block stores the cached rating of the
  space, the count 0 and no reviews. For every other response the stored review list has as
  many entries as the collection, and: when the guard of line 134 holds (\<^verbatim>\<open>stats\<close> is truthy
  and its \<^verbatim>\<open>avg\<close> or its \<^verbatim>\<open>count\<close> is a number) the average and the count are
  \<^verbatim>\<open>Number(avg ?? 0)\<close> and \<^verbatim>\<open>Number(count ?? 0)\<close>; when it does not hold and the collection is
  not empty, the average is the mean of the scores, a missing or non-numeric score counting
  as zero, and the count is the length of the collection; when it does not hold and the
  collection is empty, the average is the cached rating of the space and the count is zero.
\<close>

theorem response_summary:
  "ratingsArray data =
     (case data of
        JArr xs \<Rightarrow> xs
      | JObj kvs \<Rightarrow> (case field kvs ''ratings'' of JArr ys \<Rightarrow> ys | _ \<Rightarrow> [])
      | _ \<Rightarrow> [])
   \<and> ((\<exists>e. try_body rt space data = Inl e) \<longleftrightarrow> response_throws data)
   \<and> (response_throws data \<longrightarrow>
        on_response rt space data
          = \<lparr> ratingAvg = cached_rating rt space, ratingCount = Fin 0, reviews = [] \<rparr>)
   \<and> (\<not> response_throws data \<longrightarrow>
        length (reviews (on_response rt space data)) = length (ratingsArray data)
        \<and> (stats_used data \<longrightarrow>
             ratingAvg (on_response rt space data)
               = ToNumber rt (coalesce (member (member data ''stats'') ''avg'') (JNum (Fin 0)))
             \<and> ratingCount (on_response rt space data)
               = ToNumber rt (coalesce (member (member data ''stats'') ''count'') (JNum (Fin 0))))
        \<and> (\<not> stats_used data \<and> ratingsArray data \<noteq> [] \<longrightarrow>
             ratingAvg (on_response rt space data) = mean_score rt (ratingsArray data)
             \<and> ratingCount (on_response rt space data) = Fin (real (length (ratingsArray data))))
        \<and> (\<not> stats_used data \<and> ratingsArray data = [] \<longrightarrow>
             ratingAvg (on_response rt space data) = cached_rating rt space
             \<and> ratingCount (on_response rt space data) = Fin 0))"
proof -
  have shape: "ratingsArray data =
           (case data of
              JArr xs \<Rightarrow> xs
            | JObj kvs \<Rightarrow> (case field kvs ''ratings'' of JArr ys \<Rightarrow> ys | _ \<Rightarrow> [])
            | _ \<Rightarrow> [])"
    by (cases data) (simp_all add: ratingsArray_def)
  have iff: "(\<exists>e. try_body rt space data = Inl e) \<longleftrightarrow> response_throws data"
  proof
    assume l: "\<exists>e. try_body rt space data = Inl e"
    show "response_throws data"
    proof (rule ccontr)
      assume "\<not> response_throws data"
      then obtain v where "try_body rt space data = Inr v"
        using try_body_returns [of data rt space] by blast
      with l show False by simp
    qed
  next
    assume "response_throws data"
    then show "\<exists>e. try_body rt space data = Inl e" by (rule try_body_throws)
  qed
  have thr: "on_response rt space data
          = \<lparr> ratingAvg = cached_rating rt space, ratingCount = Fin 0, reviews = [] \<rparr>"
    if "response_throws data"
    using try_body_throws [OF that, of rt space] by (auto simp: on_response_def fallback_def)
  have ret: "length (reviews (on_response rt space data)) = length (ratingsArray data)
        \<and> (stats_used data \<longrightarrow>
             ratingAvg (on_response rt space data)
               = ToNumber rt (coalesce (member (member data ''stats'') ''avg'') (JNum (Fin 0)))
             \<and> ratingCount (on_response rt space data)
               = ToNumber rt (coalesce (member (member data ''stats'') ''count'') (JNum (Fin 0))))
        \<and> (\<not> stats_used data \<and> ratingsArray data \<noteq> [] \<longrightarrow>
             ratingAvg (on_response rt space data) = mean_score rt (ratingsArray data)
             \<and> ratingCount (on_response rt space data) = Fin (real (length (ratingsArray data))))
        \<and> (\<not> stats_used data \<and> ratingsArray data = [] \<longrightarrow>
             ratingAvg (on_response rt space data) = cached_rating rt space
             \<and> ratingCount (on_response rt space data) = Fin 0)"
    if "\<not> response_throws data"
    using try_body_returns [OF that, of rt space] by (auto simp: on_response_def)
  from shape iff thr ret show ?thesis by blast
qed

text \<open>
  The theorem on four responses: four records with the scores 5, a string that is not a
  number, none, and the string \<^verbatim>\<open>10\<close> (mean 15/4, count 4); a response with numeric stats
  (4.5 and 12, whatever the records say); a response that is a string (the cached rating 3
  of space A, count 0); and a record whose score is an object with a \<^verbatim>\<open>toString\<close> property,
  on which \<^verbatim>\<open>Number\<close> throws (the cached rating, count 0, no reviews).
\<close>

theorem response_summary_witness:
  "ratingAvg (on_response sample_runtime space_A
      (JObj [(''ratings'', JArr [JObj [(''score'', JNum (Fin 5))], JObj [(''score'', JStr ''n/a'')],
                                 JObj [(''comment'', JStr ''fine'')],
                                 JObj [(''score'', JStr ''10'')]])])) = Fin (15 / 4)
   \<and> ratingCount (on_response sample_runtime space_A
      (JObj [(''ratings'', JArr [JObj [(''score'', JNum (Fin 5))], JObj [(''score'', JStr ''n/a'')],
                                 JObj [(''comment'', JStr ''fine'')],
                                 JObj [(''score'', JStr ''10'')]])])) = Fin 4
   \<and> ratingAvg (on_response sample_runtime space_A
      (JObj [(''ratings'', JArr [JObj [(''score'', JNum (Fin 5))]]),
             (''stats'', JObj [(''avg'', JNum (Fin (9 / 2))), (''count'', JNum (Fin 12))])])) = Fin (9 / 2)
   \<and> ratingCount (on_response sample_runtime space_A
      (JObj [(''ratings'', JArr [JObj [(''score'', JNum (Fin 5))]]),
             (''stats'', JObj [(''avg'', JNum (Fin (9 / 2))), (''count'', JNum (Fin 12))])])) = Fin 12
   \<and> ratingAvg (on_response sample_runtime space_A (JStr ''maintenance'')) = Fin 3
   \<and> ratingCount (on_response sample_runtime space_A (JStr ''maintenance'')) = Fin 0
   \<and> on_response sample_runtime space_A
        (JArr [JObj [(''score'', JObj [(''toString'', JNum (Fin 1)), (''valueOf'', JNum (Fin 1))])]])
      = \<lparr> ratingAvg = Fin 3, ratingCount = Fin 0, reviews = [] \<rparr>"
proof -
  let ?d1 = "JObj [(''ratings'', JArr [JObj [(''score'', JNum (Fin 5))], JObj [(''score'', JStr ''n/a'')],
                                 JObj [(''comment'', JStr ''fine'')],
                                 JObj [(''score'', JStr ''10'')]])]"
  let ?d2 = "JObj [(''ratings'', JArr [JObj [(''score'', JNum (Fin 5))]]),
             (''stats'', JObj [(''avg'', JNum (Fin (9 / 2))), (''count'', JNum (Fin 12))])]"
  let ?d3 = "JStr ''maintenance''"
  let ?d4 = "JArr [JObj [(''score'', JObj [(''toString'', JNum (Fin 1)), (''valueOf'', JNum (Fin 1))])]]"
  have a1: "ratingsArray ?d1 = [JObj [(''score'', JNum (Fin 5))], JObj [(''score'', JStr ''n/a'')],
                                 JObj [(''comment'', JStr ''fine'')],
                                 JObj [(''score'', JStr ''10'')]]"
    by (simp add: ratingsArray_def field_def)
  have a2: "ratingsArray ?d2 = [JObj [(''score'', JNum (Fin 5))]]"
    by (simp add: ratingsArray_def field_def)
  have a3: "ratingsArray ?d3 = []"
    by (simp add: ratingsArray_def)
  have s1: "\<not> stats_used ?d1" by (simp add: stats_used_def field_def)
  have s2: "stats_used ?d2" by (simp add: stats_used_def field_def is_number_def)
  have s3: "\<not> stats_used ?d3" by (simp add: stats_used_def)
  have t1: "\<not> response_throws ?d1" by (simp add: response_throws_def a1 s1 field_def)
  have t2: "\<not> response_throws ?d2" by (simp add: response_throws_def a2 field_def)
  have t3: "\<not> response_throws ?d3" by (simp add: response_throws_def a3 s3)
  have t4: "response_throws ?d4" by (simp add: response_throws_def ratingsArray_def field_def)
  have q: "b64 (15 / 4) = Fin (15 / 4)" using b64_exact [of "15 / 4" 15 "- 2"] by simp
  have m1: "mean_score sample_runtime (ratingsArray ?d1) = Fin (15 / 4)"
    by (simp add: a1 mean_score_def score_value_def field_def sample_runtime_def q)
  have c: "cached_rating sample_runtime space_A = Fin 3"
    by (simp add: cached_rating_def space_A_def field_def coalesce_def)
  have r1: "ratingAvg (on_response sample_runtime space_A ?d1) = Fin (15 / 4)
        \<and> ratingCount (on_response sample_runtime space_A ?d1) = Fin 4"
    using response_summary [of ?d1 sample_runtime space_A] t1 s1 m1 by (simp add: a1)
  have r2: "ratingAvg (on_response sample_runtime space_A ?d2) = Fin (9 / 2)
        \<and> ratingCount (on_response sample_runtime space_A ?d2) = Fin 12"
    using response_summary [of ?d2 sample_runtime space_A] t2 s2 by (simp add: a2 field_def coalesce_def)
  have r3: "ratingAvg (on_response sample_runtime space_A ?d3) = Fin 3
        \<and> ratingCount (on_response sample_runtime space_A ?d3) = Fin 0"
    using response_summary [of ?d3 sample_runtime space_A] t3 s3 c by (simp add: a3)
  have r4: "on_response sample_runtime space_A ?d4
      = \<lparr> ratingAvg = Fin 3, ratingCount = Fin 0, reviews = [] \<rparr>"
    using response_summary [of ?d4 sample_runtime space_A] t4 c by simp
  from r1 r2 r3 r4 show ?thesis by blast
qed

text \<open>
  Claim C5 as stated fails on three responses. In the first a stats object is present, with
  \<^verbatim>\<open>avg\<close> and \<^verbatim>\<open>count\<close> given as the strings \<^verbatim>\<open>4.5\<close> and \<^verbatim>\<open>12\<close>: neither is of type number, so
  the average and the count are computed from the one record (4 and 1). In the second the
  array holds one entry, null: reading its score throws, and the handler of the exception
  stores the cached rating with the count 0, not the length 1. In the third the one record
  has a score that is an object with the properties \<^verbatim>\<open>toString\<close> and \<^verbatim>\<open>valueOf\<close>: \<^verbatim>\<open>Number\<close>
  throws, with the same result.
\<close>

theorem stats_present_not_used:
  "truthy (member (JObj [(''ratings'', JArr [JObj [(''score'', JNum (Fin 4))]]),
                         (''stats'', JObj [(''avg'', JStr ''4.5''), (''count'', JStr ''12'')])]) ''stats'')
   \<and> ToNumber sample_runtime (JStr ''4.5'') = Fin (9 / 2)
   \<and> ToNumber sample_runtime (JStr ''12'') = Fin 12
   \<and> ratingAvg (on_response sample_runtime space_A
        (JObj [(''ratings'', JArr [JObj [(''score'', JNum (Fin 4))]]),
               (''stats'', JObj [(''avg'', JStr ''4.5''), (''count'', JStr ''12'')])])) = Fin 4
   \<and> ratingCount (on_response sample_runtime space_A
        (JObj [(''ratings'', JArr [JObj [(''score'', JNum (Fin 4))]]),
               (''stats'', JObj [(''avg'', JStr ''4.5''), (''count'', JStr ''12'')])])) = Fin 1
   \<and> length (ratingsArray (JArr [JNull])) = 1
   \<and> ratingCount (on_response sample_runtime space_A (JArr [JNull])) = Fin 0
   \<and> ratingAvg (on_response sample_runtime space_A (JArr [JNull])) = Fin 3
   \<and> length (ratingsArray
        (JArr [JObj [(''score'', JObj [(''toString'', JNum (Fin 1)), (''valueOf'', JNum (Fin 1))])]])) = 1
   \<and> ratingCount (on_response sample_runtime space_A
        (JArr [JObj [(''score'', JObj [(''toString'', JNum (Fin 1)), (''valueOf'', JNum (Fin 1))])]]))
      = Fin 0
   \<and> ratingAvg (on_response sample_runtime space_A
        (JArr [JObj [(''score'', JObj [(''toString'', JNum (Fin 1)), (''valueOf'', JNum (Fin 1))])]]))
      = Fin 3"
  by (simp add: on_response_def try_body_def summarize_def stats_used_def is_number_def
      ratingsArray_def field_def member_strict_def Number_of_def num_or_zero_def normalize_review_def
      js_or_def fallback_def cached_rating_def coalesce_def space_A_def sample_runtime_def)

section \<open>Properties of the duration and of the displayed price\<close>

text \<open>The hours between two different times are positive: they do not round to zero.\<close>

lemma hours_positive:
  assumes "1 \<le> x"
  shows "0 < rounded (rounded (rounded x / (1000 * 60)) / 60)"
proof -
  have "rounded 1 \<le> rounded x" using assms by (intro rounded_mono) simp_all
  then have x1: "1 \<le> rounded x" by simp
  have "(2::real) powi (- 16) \<le> 1 / (1000 * 60)" by (simp add: power_int_def power_divide)
  also have "\<dots> \<le> rounded x / (1000 * 60)" using x1 by (simp add: divide_right_mono)
  finally have "rounded (2 powi (- 16)) \<le> rounded (rounded x / (1000 * 60))"
    by (intro rounded_mono) simp_all
  moreover have "rounded (2 powi (- 16)) = 2 powi (- 16)" by (rule rounded_pow2) simp
  ultimately have x2: "2 powi (- 16) \<le> rounded (rounded x / (1000 * 60))"
    by (simp only:)
  have "(2::real) powi (- 22) \<le> 2 powi (- 16) / 60" by (simp add: power_int_def power_divide)
  also have "\<dots> \<le> rounded (rounded x / (1000 * 60)) / 60" using x2 by (simp add: divide_right_mono)
  finally have "rounded (2 powi (- 22)) \<le> rounded (rounded (rounded x / (1000 * 60)) / 60)"
    by (intro rounded_mono) simp_all
  moreover have "rounded (2 powi (- 22)) = 2 powi (- 22)" by (rule rounded_pow2) simp
  ultimately have "2 powi (- 22) \<le> rounded (rounded (rounded x / (1000 * 60)) / 60)"
    by (simp only:)
  moreover have "(0::real) < 2 powi (- 22)" by simp
  ultimately show ?thesis by (rule less_le_trans [rotated])
qed

text \<open>
  The hours are within a relative error of \<open>2\<^sup>-\<^sup>5\<^sup>1\<close> of the exact quotient of the milliseconds
  by 3600000.
\<close>

lemma hours_close:
  assumes "1 \<le> x"
  shows "\<bar>rounded (rounded (rounded x / (1000 * 60)) / 60) - x / 3600000\<bar>
           \<le> x / 3600000 * 2 powi (- 51)"
proof -
  let ?r1 = "rounded x"
  let ?r2 = "rounded (?r1 / (1000 * 60))"
  let ?r3 = "rounded (?r2 / 60)"
  have small: "(2::real) powi (- 1022) \<le> 2 powi (- 30)"
    by (intro power_int_increasing) simp_all
  have p30: "(2::real) powi (- 30) = 1 / 2 ^ 30" by (simp add: power_int_def power_divide)
  have n1: "2 powi (- 1022) \<le> x" using small assms p30 by simp
  note b1 = rounded_between [OF n1]
  have "(1::real) / 2 \<le> x * (1 - 1 / 2 ^ 53)" using assms by simp
  with b1(1) have r1: "1 / 2 \<le> ?r1" by (rule order_trans [rotated])
  then have x2: "1 / 2 ^ 20 \<le> ?r1 / (1000 * 60)" by simp
  then have n2: "2 powi (- 1022) \<le> ?r1 / (1000 * 60)" using small p30 by simp
  note b2 = rounded_between [OF n2]
  have "(1::real) / 2 ^ 21 \<le> ?r1 / (1000 * 60) * (1 - 1 / 2 ^ 53)" using x2 by simp
  with b2(1) have r2: "1 / 2 ^ 21 \<le> ?r2" by (rule order_trans [rotated])
  then have x3: "1 / 2 ^ 30 \<le> ?r2 / 60" by simp
  then have n3: "2 powi (- 1022) \<le> ?r2 / 60" using small p30 by simp
  note b3 = rounded_between [OF n3]
  have u51: "(2::real) powi (- 51) = 1 / 2 ^ 51" by (simp add: power_int_def power_divide)
  have x0: "0 \<le> x" using assms by simp
  have up: "?r3 \<le> x / 3600000 * (1 + 1 / 2 ^ 51)"
  proof -
    have "?r3 \<le> ?r2 / 60 * (1 + 1 / 2 ^ 53)" by (rule b3(2))
    also have "\<dots> \<le> (?r1 / (1000 * 60) * (1 + 1 / 2 ^ 53)) / 60 * (1 + 1 / 2 ^ 53)"
      using b2(2) by (intro mult_right_mono divide_right_mono) simp_all
    also have "\<dots> \<le> ((x * (1 + 1 / 2 ^ 53)) / (1000 * 60) * (1 + 1 / 2 ^ 53)) / 60 * (1 + 1 / 2 ^ 53)"
      using b1(2) by (intro mult_right_mono divide_right_mono) simp_all
    also have "\<dots> = x / 3600000 * ((1 + 1 / 2 ^ 53) * (1 + 1 / 2 ^ 53) * (1 + 1 / 2 ^ 53))" by simp
    also have "\<dots> \<le> x / 3600000 * (1 + 1 / 2 ^ 51)"
      using x0 by (intro mult_left_mono) simp_all
    finally show ?thesis .
  qed
  have lo: "x / 3600000 * (1 - 1 / 2 ^ 51) \<le> ?r3"
  proof -
    have "x / 3600000 * (1 - 1 / 2 ^ 51)
        \<le> x / 3600000 * ((1 - 1 / 2 ^ 53) * (1 - 1 / 2 ^ 53) * (1 - 1 / 2 ^ 53))"
      using x0 by (intro mult_left_mono) simp_all
    also have "\<dots> = ((x * (1 - 1 / 2 ^ 53)) / (1000 * 60) * (1 - 1 / 2 ^ 53)) / 60 * (1 - 1 / 2 ^ 53)"
      by simp
    also have "\<dots> \<le> (?r1 / (1000 * 60) * (1 - 1 / 2 ^ 53)) / 60 * (1 - 1 / 2 ^ 53)"
      using b1(1) by (intro mult_right_mono divide_right_mono) simp_all
    also have "\<dots> \<le> ?r2 / 60 * (1 - 1 / 2 ^ 53)"
      using b2(1) by (intro mult_right_mono divide_right_mono) simp_all
    also have "\<dots> \<le> ?r3" by (rule b3(1))
    finally show ?thesis .
  qed
  have a: "?r3 - x / 3600000 \<le> x / 3600000 * (1 / 2 ^ 51)"
    using up by (simp add: algebra_simps)
  have b: "- (?r3 - x / 3600000) \<le> x / 3600000 * (1 / 2 ^ 51)"
    using lo by (simp add: algebra_simps)
  show ?thesis unfolding u51 using a b by (rule abs_leI)
qed

lemma duration_cases:
  "computeDurationHours rt start end' = Some h \<longleftrightarrow>
     (\<exists>s e ts te. start = Some s \<and> end' = Some e \<and> s \<noteq> [] \<and> e \<noteq> []
        \<and> DateTime rt (JStr s) = Some ts \<and> DateTime rt (JStr e) = Some te \<and> ts < te
        \<and> h = rounded (rounded (rounded (real_of_int (te - ts)) / (1000 * 60)) / 60))"
  by (auto simp: computeDurationHours_def split: option.splits)

lemma duration_positive: "computeDurationHours rt start end' = Some h \<Longrightarrow> 0 < h"
proof -
  assume "computeDurationHours rt start end' = Some h"
  then obtain ts te :: int where lt: "ts < te"
    and h: "h = rounded (rounded (rounded (real_of_int (te - ts)) / (1000 * 60)) / 60)"
    unfolding duration_cases by blast
  from lt have "1 \<le> real_of_int (te - ts)" by simp
  then show ?thesis unfolding h by (rule hours_positive)
qed

text \<open>
  Claim C7. The duration is defined, with the value \<open>h\<close>, exactly when both timestamps are
  present (non-empty strings), both parse, and the end is strictly after the start; \<open>h\<close> is
  then the difference in minutes divided by 60, computed in binary64: the difference of the
  times, the division by 60000 and the division by 60 are each rounded, and the result is
  within a relative error of \<open>2\<^sup>-\<^sup>5\<^sup>1\<close> of the exact quotient. The total amount is null exactly when the
  duration is. With the two timestamps of the specification's example parsed to their
  epoch milliseconds the duration is 2.5 hours, and it is undefined when the end is before
  or equal to the start. All functions involved are total: no input makes them throw.
\<close>

theorem duration_defined_iff:
  "(computeDurationHours rt start end' = Some h \<longleftrightarrow>
     (\<exists>s e ts te. start = Some s \<and> end' = Some e \<and> s \<noteq> [] \<and> e \<noteq> []
        \<and> DateTime rt (JStr s) = Some ts \<and> DateTime rt (JStr e) = Some te \<and> ts < te
        \<and> h = rounded (rounded (rounded (real_of_int (te - ts)) / (1000 * 60)) / 60)
        \<and> \<bar>h - real_of_int (te - ts) / 3600000\<bar>
              \<le> real_of_int (te - ts) / 3600000 * 2 powi (- 51)))
   \<and> (totalAmount_of rt space (computeDurationHours rt start end') = JNull
        \<longleftrightarrow> computeDurationHours rt start end' = None)
   \<and> (DateTime rt (JStr ''2024-01-01T10:00:00Z'') = Some 1704103200000
        \<and> DateTime rt (JStr ''2024-01-01T12:30:00Z'') = Some 1704112200000 \<longrightarrow>
      computeDurationHours rt (Some ''2024-01-01T10:00:00Z'') (Some ''2024-01-01T12:30:00Z'')
        = Some (5 / 2)
      \<and> computeDurationHours rt (Some ''2024-01-01T12:30:00Z'') (Some ''2024-01-01T10:00:00Z'')
        = None
      \<and> computeDurationHours rt (Some ''2024-01-01T10:00:00Z'') (Some ''2024-01-01T10:00:00Z'')
        = None)"
proof -
  have t: "totalAmount_of rt space (computeDurationHours rt start end') = JNull
        \<longleftrightarrow> computeDurationHours rt start end' = None"
  proof (cases "computeDurationHours rt start end'")
    case None
    then show ?thesis by (simp add: totalAmount_of_def)
  next
    case (Some d)
    then have "0 < d" by (rule duration_positive)
    with Some show ?thesis by (simp add: totalAmount_of_def)
  qed
  have ex: "DateTime rt (JStr ''2024-01-01T10:00:00Z'') = Some 1704103200000
        \<and> DateTime rt (JStr ''2024-01-01T12:30:00Z'') = Some 1704112200000 \<longrightarrow>
      computeDurationHours rt (Some ''2024-01-01T10:00:00Z'') (Some ''2024-01-01T12:30:00Z'')
        = Some (5 / 2)
      \<and> computeDurationHours rt (Some ''2024-01-01T12:30:00Z'') (Some ''2024-01-01T10:00:00Z'')
        = None
      \<and> computeDurationHours rt (Some ''2024-01-01T10:00:00Z'') (Some ''2024-01-01T10:00:00Z'')
        = None"
    by (simp add: computeDurationHours_def hours_9000000)
  have dc: "computeDurationHours rt start end' = Some h \<longleftrightarrow>
     (\<exists>s e ts te. start = Some s \<and> end' = Some e \<and> s \<noteq> [] \<and> e \<noteq> []
        \<and> DateTime rt (JStr s) = Some ts \<and> DateTime rt (JStr e) = Some te \<and> ts < te
        \<and> h = rounded (rounded (rounded (real_of_int (te - ts)) / (1000 * 60)) / 60)
        \<and> \<bar>h - real_of_int (te - ts) / 3600000\<bar>
              \<le> real_of_int (te - ts) / 3600000 * 2 powi (- 51))"
  proof
    assume "computeDurationHours rt start end' = Some h"
    then obtain s e ts te where f: "start = Some s" "end' = Some e" "s \<noteq> []" "e \<noteq> []"
        "DateTime rt (JStr s) = Some ts" "DateTime rt (JStr e) = Some te" "ts < te"
        "h = rounded (rounded (rounded (real_of_int (te - ts)) / (1000 * 60)) / 60)"
      unfolding duration_cases by blast
    from f(7) have "1 \<le> real_of_int (te - ts)" by simp
    then have "\<bar>h - real_of_int (te - ts) / 3600000\<bar>
              \<le> real_of_int (te - ts) / 3600000 * 2 powi (- 51)"
      unfolding f(8) by (rule hours_close)
    with f show "\<exists>s e ts te. start = Some s \<and> end' = Some e \<and> s \<noteq> [] \<and> e \<noteq> []
        \<and> DateTime rt (JStr s) = Some ts \<and> DateTime rt (JStr e) = Some te \<and> ts < te
        \<and> h = rounded (rounded (rounded (real_of_int (te - ts)) / (1000 * 60)) / 60)
        \<and> \<bar>h - real_of_int (te - ts) / 3600000\<bar>
              \<le> real_of_int (te - ts) / 3600000 * 2 powi (- 51)"
      by blast
  next
    assume "\<exists>s e ts te. start = Some s \<and> end' = Some e \<and> s \<noteq> [] \<and> e \<noteq> []
        \<and> DateTime rt (JStr s) = Some ts \<and> DateTime rt (JStr e) = Some te \<and> ts < te
        \<and> h = rounded (rounded (rounded (real_of_int (te - ts)) / (1000 * 60)) / 60)
        \<and> \<bar>h - real_of_int (te - ts) / 3600000\<bar>
              \<le> real_of_int (te - ts) / 3600000 * 2 powi (- 51)"
    then show "computeDurationHours rt start end' = Some h"
      unfolding duration_cases by blast
  qed
  from dc t ex show ?thesis by blast
qed

text \<open>
  The theorem in the sample runtime: the example of 2.5 hours, the reversed interval, a
  start that does not parse and a start that is absent.
\<close>

theorem duration_defined_iff_witness:
  "computeDurationHours sample_runtime (Some ''2024-01-01T10:00:00Z'') (Some ''2024-01-01T12:30:00Z'')
     = Some (5 / 2)
   \<and> computeDurationHours sample_runtime (Some ''2024-01-01T12:30:00Z'') (Some ''2024-01-01T10:00:00Z'')
     = None
   \<and> totalAmount_of sample_runtime space_A
        (computeDurationHours sample_runtime (Some ''yesterday'') (Some ''2024-01-01T10:00:00Z'')) = JNull
   \<and> totalAmount_of sample_runtime space_A
        (computeDurationHours sample_runtime None (Some ''2024-01-01T10:00:00Z'')) = JNull"
proof -
  have p: "DateTime sample_runtime (JStr ''2024-01-01T10:00:00Z'') = Some 1704103200000
        \<and> DateTime sample_runtime (JStr ''2024-01-01T12:30:00Z'') = Some 1704112200000"
    by (simp add: sample_runtime_def)
  have n1: "computeDurationHours sample_runtime (Some ''yesterday'') (Some ''2024-01-01T10:00:00Z'') = None"
    by (simp add: computeDurationHours_def sample_runtime_def)
  have n2: "computeDurationHours sample_runtime None (Some ''2024-01-01T10:00:00Z'') = None"
    by (simp add: computeDurationHours_def)
  note d = duration_defined_iff [where rt = sample_runtime and space = space_A]
  have a: "computeDurationHours sample_runtime (Some ''2024-01-01T10:00:00Z'') (Some ''2024-01-01T12:30:00Z'')
     = Some (5 / 2)
   \<and> computeDurationHours sample_runtime (Some ''2024-01-01T12:30:00Z'') (Some ''2024-01-01T10:00:00Z'')
     = None"
    using d p by blast
  have b: "totalAmount_of sample_runtime space_A
        (computeDurationHours sample_runtime (Some ''yesterday'') (Some ''2024-01-01T10:00:00Z'')) = JNull"
    using d [where start = "Some ''yesterday''" and end' = "Some ''2024-01-01T10:00:00Z''"] n1 by blast
  have c: "totalAmount_of sample_runtime space_A
        (computeDurationHours sample_runtime None (Some ''2024-01-01T10:00:00Z'')) = JNull"
    using d [where start = None and end' = "Some ''2024-01-01T10:00:00Z''"] n2 by blast
  from a b c show ?thesis by blast
qed

text \<open>
  Claim C9, as the code has it. The breakdown computed by \<^verbatim>\<open>computeDiscountedPrice\<close> depends on
  the five raw fields \<^verbatim>\<open>priceParking\<close>, \<^verbatim>\<open>pricePerHour\<close>, \<^verbatim>\<open>price\<close>, \<^verbatim>\<open>discount\<close> and
  \<^verbatim>\<open>discountPercent\<close> only. The displayed \<^verbatim>\<open>priceMeta\<close> is that breakdown when the space has no
  \<^verbatim>\<open>__price\<close> (null or undefined), and is the space's \<^verbatim>\<open>__price\<close> otherwise. Either way it is
  a function of the space of the current render and of nothing stored.
\<close>

theorem priceMeta_derivation:
  assumes "field s ''priceParking'' = field s' ''priceParking''"
    and "field s ''pricePerHour'' = field s' ''pricePerHour''"
    and "field s ''price'' = field s' ''price''"
    and "field s ''discount'' = field s' ''discount''"
    and "field s ''discountPercent'' = field s' ''discountPercent''"
  shows "computeDiscountedPrice rt s = computeDiscountedPrice rt s'
       \<and> (nullish (field s ''__price'') \<and> nullish (field s' ''__price'') \<longrightarrow>
            priceMeta rt s = priceMeta rt s'
            \<and> priceMeta rt s = breakdown_obj (computeDiscountedPrice rt s))
       \<and> (\<not> nullish (field s ''__price'') \<longrightarrow> priceMeta rt s = field s ''__price'')"
proof -
  have b: "base rt s = base rt s'" using assms by (simp add: base_def)
  have d: "discountNum rt s = discountNum rt s'" using assms by (simp add: discountNum_def rawDiscount_def)
  have c: "clamped rt s = clamped rt s'" using d by (simp add: clamped_def)
  have "computeDiscountedPrice rt s = computeDiscountedPrice rt s'"
    using b c by (simp add: computeDiscountedPrice_def)
  then show ?thesis by (simp add: priceMeta_def)
qed

text \<open>
  The theorem on space A and on the same space with a \<^verbatim>\<open>__price\<close> attached: the computed
  breakdowns agree, the first is displayed for space A, and the attached one for the other.
\<close>

theorem priceMeta_derivation_witness:
  "computeDiscountedPrice sample_runtime space_A = computeDiscountedPrice sample_runtime space_A_cached
   \<and> priceMeta sample_runtime space_A
       = JObj [(''basePrice'', JNum (Fin 100)), (''discountPercent'', JNum (Fin 0)),
               (''discountedPrice'', JNum (Fin 100)), (''hasDiscount'', JBool False)]
   \<and> priceMeta sample_runtime space_A_cached = field space_A_cached ''__price''"
proof -
  have f: "field space_A ''priceParking'' = field space_A_cached ''priceParking''"
    "field space_A ''pricePerHour'' = field space_A_cached ''pricePerHour''"
    "field space_A ''price'' = field space_A_cached ''price''"
    "field space_A ''discount'' = field space_A_cached ''discount''"
    "field space_A ''discountPercent'' = field space_A_cached ''discountPercent''"
    by (simp_all add: space_A_cached_def space_A_def field_def)
  have n: "nullish (field space_A ''__price'')" "\<not> nullish (field space_A_cached ''__price'')"
    by (simp_all add: space_A_cached_def space_A_def field_def)
  have v: "breakdown_obj (computeDiscountedPrice sample_runtime space_A)
       = JObj [(''basePrice'', JNum (Fin 100)), (''discountPercent'', JNum (Fin 0)),
               (''discountedPrice'', JNum (Fin 100)), (''hasDiscount'', JBool False)]"
    by (simp add: breakdown_obj_def price_space_A)
  have a: "computeDiscountedPrice sample_runtime space_A = computeDiscountedPrice sample_runtime space_A_cached"
    using priceMeta_derivation [OF f] by blast
  have b: "priceMeta sample_runtime space_A = breakdown_obj (computeDiscountedPrice sample_runtime space_A)"
    using priceMeta_derivation [OF refl refl refl refl refl, of sample_runtime space_A] n by blast
  have c: "priceMeta sample_runtime space_A_cached = field space_A_cached ''__price''"
    using priceMeta_derivation [OF refl refl refl refl refl, of sample_runtime space_A_cached] n by blast
  from a b c v show ?thesis by simp
qed

text \<open>
  Claim C9 as stated fails on these two spaces: their raw price and discount fields are the
  same, and the displayed breakdown and per-hour price differ.
\<close>

theorem priceMeta_from_cache:
  "field space_A ''priceParking'' = field space_A_cached ''priceParking''
   \<and> field space_A ''pricePerHour'' = field space_A_cached ''pricePerHour''
   \<and> field space_A ''price'' = field space_A_cached ''price''
   \<and> field space_A ''discount'' = field space_A_cached ''discount''
   \<and> field space_A ''discountPercent'' = field space_A_cached ''discountPercent''
   \<and> priceMeta sample_runtime space_A \<noteq> priceMeta sample_runtime space_A_cached
   \<and> perHour_of sample_runtime space_A = JNum (Fin 100)
   \<and> perHour_of sample_runtime space_A_cached = JNum (Fin 40)"
  by (simp add: perHour_of_def priceMeta_def breakdown_obj_def computeDiscountedPrice_def Let_def
      base_def clamped_def discountNum_def rawDiscount_def space_A_cached_def space_A_def field_def
      coalesce_def num_or_zero_def js_sub_def toFixed2_def)

section \<open>The resolved image list\<close>

text \<open>
  Claim C6 at its failing inputs. An empty array of photos is truthy, so it takes the branch
  for a single value, where \<^verbatim>\<open>makeUrl\<close> finds none of \<^verbatim>\<open>url\<close>, \<^verbatim>\<open>path\<close> and \<^verbatim>\<open>filename\<close> and the
  filter drops the result: the list is empty and the placeholder is not used. The same
  holds for an array whose entries all resolve to nothing and for an object without the
  three fields. An absent \<^verbatim>\<open>photos\<close> gives the placeholder, and a bare file name the uploads
  URL.
\<close>

theorem images_empty_list:
  "images rt cfg [(''photos'', JArr [])] = Inr []
   \<and> images rt cfg [(''photos'', JArr [JStr []])] = Inr []
   \<and> images rt cfg [(''photos'', JArr [JObj []])] = Inr []
   \<and> images rt cfg [(''photos'', JObj [])] = Inr []
   \<and> images rt cfg [] = Inr [JStr placeholder]
   \<and> images sample_runtime sample_config [(''photos'', JStr ''abc.jpg'')]
       = Inr [JStr ''https://x.test/uploads/abc.jpg'']"
  by (simp add: images_def makeUrl_def makeUrl_object_def field_def Let_def starts_with_def
      sample_config_def)

end
